theory Spec2Isabelle
  imports Main
begin

section \<open>JavaScript values\<close>

text \<open>
  The transport in \<^verbatim>\<open>lib/transports/ws2.js\<close> works on values produced by
  \<^verbatim>\<open>JSON.parse\<close>: arrays, strings, numbers, booleans, \<^verbatim>\<open>null\<close>, objects, and the
  \<^verbatim>\<open>undefined\<close> that an out-of-range read gives. Numbers are modelled as integers
  (sequence numbers, channel ids, timestamps and checksums are integers); \<open>JNaN\<close> is
  the one non-finite number the code itself writes (\<^verbatim>\<open>NaN\<close> in \<^verbatim>\<open>_validateMessageSeq\<close>).
\<close>

datatype jsval =
    JUndefined
  | JNull
  | JBool bool
  | JNum int
  | JNaN
  | JStr string
  | JArr "jsval list"
  | JObj "(string \<times> jsval) list"

text \<open>Truthiness, as \<^verbatim>\<open>!v\<close>, \<^verbatim>\<open>a || b\<close> and \<^verbatim>\<open>if (v)\<close> read it.\<close>

fun js_truthy :: "jsval \<Rightarrow> bool" where
  "js_truthy JUndefined = False"
| "js_truthy JNull = False"
| "js_truthy (JBool b) = b"
| "js_truthy (JNum n) = (n \<noteq> 0)"
| "js_truthy JNaN = False"
| "js_truthy (JStr s) = (s \<noteq> [])"
| "js_truthy (JArr xs) = True"
| "js_truthy (JObj kvs) = True"

definition js_or :: "jsval \<Rightarrow> jsval \<Rightarrow> jsval" where
  "js_or a b = (if js_truthy a then a else b)"

fun js_nullish :: "jsval \<Rightarrow> bool" where
  "js_nullish JUndefined = True"
| "js_nullish JNull = True"
| "js_nullish v = False"

text \<open>
  Strict equality \<^verbatim>\<open>===\<close>. Arrays and objects compare by reference; the values
  compared in this file come from different sources (a parsed packet against a stored
  value or a caller's filter), so two arrays or two objects are never the same reference.
  \<^verbatim>\<open>NaN\<close> equals nothing.
\<close>

fun js_strict_eq :: "jsval \<Rightarrow> jsval \<Rightarrow> bool" where
  "js_strict_eq JUndefined JUndefined = True"
| "js_strict_eq JNull JNull = True"
| "js_strict_eq (JBool a) (JBool b) = (a = b)"
| "js_strict_eq (JNum a) (JNum b) = (a = b)"
| "js_strict_eq (JStr a) (JStr b) = (a = b)"
| "js_strict_eq a b = False"

fun js_is_array :: "jsval \<Rightarrow> bool" where
  "js_is_array (JArr xs) = True"
| "js_is_array v = False"

text \<open>lodash \<^verbatim>\<open>isFinite\<close>: a number that is neither \<^verbatim>\<open>NaN\<close> nor infinite.\<close>

fun js_isFinite :: "jsval \<Rightarrow> bool" where
  "js_isFinite (JNum n) = True"
| "js_isFinite v = False"

text \<open>Decimal rendering of numbers, for template strings and property keys.\<close>

definition digit_char :: "nat \<Rightarrow> char" where
  "digit_char d = ''0123456789'' ! (d mod 10)"

fun dec_of_nat :: "nat \<Rightarrow> string" where
  "dec_of_nat n = (if n < 10 then [digit_char n] else dec_of_nat (n div 10) @ [digit_char (n mod 10)])"

declare dec_of_nat.simps [simp del]

definition dec_of_int :: "int \<Rightarrow> string" where
  "dec_of_int i = (if i < 0 then CHR ''-'' # dec_of_nat (nat (- i)) else dec_of_nat (nat i))"

fun join_comma :: "string list \<Rightarrow> string" where
  "join_comma [] = []"
| "join_comma [s] = s"
| "join_comma (s # t # ss) = s @ '','' @ join_comma (t # ss)"

text \<open>
  \<^verbatim>\<open>String(v)\<close>, which a template string \<^verbatim>\<open>`${v}`\<close> and a computed property key apply.
  An array joins its elements with commas, \<^verbatim>\<open>null\<close> and \<^verbatim>\<open>undefined\<close> elements as
  empty strings.
\<close>

fun js_to_string :: "jsval \<Rightarrow> string" where
  "js_to_string JUndefined = ''undefined''"
| "js_to_string JNull = ''null''"
| "js_to_string (JBool b) = (if b then ''true'' else ''false'')"
| "js_to_string (JNum n) = dec_of_int n"
| "js_to_string JNaN = ''NaN''"
| "js_to_string (JStr s) = s"
| "js_to_string (JArr xs) = join_comma (map (\<lambda>x. if js_nullish x then [] else js_to_string x) xs)"
| "js_to_string (JObj kvs) = ''[object Object]''"

text \<open>
  Reading an array at an integer position: \<^verbatim>\<open>xs[i]\<close> is \<^verbatim>\<open>undefined\<close> outside
  \<open>0 \<le> i < length\<close> (\<^verbatim>\<open>msg[msg.length - 2]\<close> reads position \<open>-1\<close> of a one-element packet).
\<close>

definition arr_at :: "jsval list \<Rightarrow> int \<Rightarrow> jsval" where
  "arr_at xs i = (if 0 \<le> i \<and> i < int (length xs) then xs ! nat i else JUndefined)"

text \<open>
  \<^verbatim>\<open>v[i]\<close> on a value that is neither \<^verbatim>\<open>null\<close> nor \<^verbatim>\<open>undefined\<close>: an array
  element, a one-character string, an object's property under the decimal key, and
  \<^verbatim>\<open>undefined\<close> for a number or boolean. \<open>js_get\<close> adds the TypeError that reading a
  property of \<^verbatim>\<open>null\<close> or \<^verbatim>\<open>undefined\<close> throws, as \<open>None\<close>.
\<close>

fun js_idx :: "jsval \<Rightarrow> nat \<Rightarrow> jsval" where
  "js_idx (JArr xs) i = arr_at xs (int i)"
| "js_idx (JStr s) i = (if i < length s then JStr [s ! i] else JUndefined)"
| "js_idx (JObj kvs) i = (case map_of kvs (dec_of_nat i) of Some v \<Rightarrow> v | None \<Rightarrow> JUndefined)"
| "js_idx v i = JUndefined"

definition js_get :: "jsval \<Rightarrow> nat \<Rightarrow> jsval option" where
  "js_get v i = (if js_nullish v then None else Some (js_idx v i))"

text \<open>\<^verbatim>\<open>s.slice(-4)\<close> on a string: its last four characters, or all of a shorter string.\<close>

definition slice_last4 :: "string \<Rightarrow> string" where
  "slice_last4 s = drop (length s - 4) s"

section \<open>Errors\<close>

text \<open>
  The \<^verbatim>\<open>Error\<close> objects the transport builds, one constructor per message, with the
  values the message interpolates.
\<close>

datatype ws_error =
    InvalidPubSeq int int
  | AuthSeqNoAdvancement int
  | AuthSeqSame int
  | InvalidAuthSeq int int
  | ChecksumMismatch jsval jsval
  | UnknownOB string
  | UnknownCandles string
  | AlreadyOpen
  | NotOpen
  | AlreadyAuthenticated
  | NotAuthenticated
  | NoClientOrNotOpen
  | CurrentlyClosing


section \<open>Objects, listeners and the transport's state\<close>

text \<open>Property reads and writes on a plain object, kept as its list of own properties.\<close>

fun js_prop :: "jsval \<Rightarrow> string \<Rightarrow> jsval" where
  "js_prop (JObj kvs) k = (case map_of kvs k of Some v \<Rightarrow> v | None \<Rightarrow> JUndefined)"
| "js_prop v k = JUndefined"

fun obj_set :: "(string \<times> 'a) list \<Rightarrow> string \<Rightarrow> 'a \<Rightarrow> (string \<times> 'a) list" where
  "obj_set [] k v = [(k, v)]"
| "obj_set ((k', v') # kvs) k v = (if k' = k then (k, v) # kvs else (k', v') # obj_set kvs k v)"

text \<open>\<^verbatim>\<open>Object.assign(target, source)\<close>: each own property of the source is written in turn.\<close>

fun obj_assign :: "(string \<times> jsval) list \<Rightarrow> (string \<times> jsval) list \<Rightarrow> (string \<times> jsval) list" where
  "obj_assign target [] = target"
| "obj_assign target ((k, v) # src) = obj_assign (obj_set target k v) src"

text \<open>
  A registered listener \<^verbatim>\<open>{ cb, modelClass, filter }\<close>. The filter maps packet positions
  to required values (\<open>None\<close> is the \<^verbatim>\<open>null\<close> filter), the model class is named, and
  the callback is identified by a number: calling it is recorded, not run.
\<close>

record listener =
  cb :: nat
  modelClass :: "string option"
  filter :: "(nat \<times> jsval) list option"

text \<open>What a callback receives as first argument: the payload as it is, or decoded by a model class.\<close>

datatype cb_arg =
    Raw jsval
  | Model string jsval
  | Models string "jsval list"

text \<open>One callback invocation: the listener called, its first and its second argument.\<close>

datatype cb_call = Call listener cb_arg jsval

text \<open>
  An \<^verbatim>\<open>emit\<close> on the transport's own event channel. An error handler is taken to be
  registered, so emitting an error reports it and returns.
\<close>

datatype ws_event =
    EmitError ws_error
  | Emit string "jsval list"

text \<open>
  The fields of a \<^verbatim>\<open>WSv2\<close> instance that the verified operations read or write, and
  three logs for their effects: the frames handed to the socket (\<open>sent\<close>), the events
  emitted (\<open>emitted\<close>) and the listener callbacks invoked (\<open>calls\<close>). Channel maps are
  kept in ascending order of channel id, the order in which \<^verbatim>\<open>Object.keys\<close> lists
  integer keys.
\<close>

record ws_state =
  seqAudit :: bool
  lastPubSeq :: int
  lastAuthSeq :: int
  transform :: bool
  manageOrderBooks :: bool
  manageCandles :: bool
  orderBooks :: "string \<rightharpoonup> jsval"
  losslessOrderBooks :: "string \<rightharpoonup> jsval"
  candles :: "string \<rightharpoonup> jsval list"
  listeners :: "(string \<times> (string \<times> listener list) list) list"
  subscriptionRefs :: "string \<rightharpoonup> int"
  channelMap :: "(nat \<times> jsval) list"
  prevChannelMap :: "(nat \<times> jsval) list"
  enabledFlags :: nat
  hasSocket :: bool
  isOpen :: bool
  isClosing :: bool
  isReconnecting :: bool
  isAuthenticated :: bool
  authOnReconnect :: bool
  autoReconnect :: bool
  orderOpBufferDelay :: int
  orderOpBuffer :: "jsval list"
  orderOpTimeout :: bool
  authArgs :: "(string \<times> jsval) list"
  sent :: "jsval list"
  emitted :: "ws_event list"
  calls :: "cb_call list"

section \<open>Sequence auditing\<close>

text \<open>
  \<^verbatim>\<open>_validateMessageSeq\<close>. The tag \<^verbatim>\<open>(msg[2] || [])[1] || ''\<close> marks a request echo when
  its string form ends in \<^verbatim>\<open>-req\<close>; \<^verbatim>\<open>msg[2] || []\<close> is truthy, so the read never throws.
\<close>

definition reqTag :: "jsval list \<Rightarrow> jsval" where
  "reqTag msg = js_or (js_idx (js_or (arr_at msg 2) (JArr [])) 1) (JStr [])"

definition isReqEcho :: "jsval list \<Rightarrow> bool" where
  "isReqEcho msg = (slice_last4 (js_to_string (reqTag msg)) = ''-req'')"

text \<open>\<^verbatim>\<open>msg[0] === 0 && msg[1] !== 'hb'\<close>: a non-heartbeat packet of the authenticated channel.\<close>

definition onAuthChannel :: "jsval list \<Rightarrow> bool" where
  "onAuthChannel msg = (js_strict_eq (arr_at msg 0) (JNum 0) \<and> \<not> js_strict_eq (arr_at msg 1) (JStr ''hb''))"

definition authSeqOf :: "jsval list \<Rightarrow> jsval" where
  "authSeqOf msg = (if onAuthChannel msg then arr_at msg (int (length msg) - 1) else JNaN)"

text \<open>
  \<^verbatim>\<open>tag.slice(-4) === '-req'\<close> without the template string: a string is sliced, an
  array's slice is an array and equals no string, and any other truthy tag has no
  \<^verbatim>\<open>slice\<close> method, which throws a TypeError (\<open>None\<close>).
\<close>

fun sliceIsReq :: "jsval \<Rightarrow> bool option" where
  "sliceIsReq (JStr s) = Some (slice_last4 s = ''-req'')"
| "sliceIsReq (JArr xs) = Some False"
| "sliceIsReq v = None"

text \<open>
  The public sequence number: second to last on the authenticated channel (the
  \<^verbatim>\<open>&&\<close> chain only inspects the tag of a notification), last elsewhere.
\<close>

definition pubSeqOf :: "jsval list \<Rightarrow> jsval option" where
  "pubSeqOf msg =
     (if onAuthChannel msg then
        (if js_strict_eq (arr_at msg 1) (JStr ''n'') then
           (case sliceIsReq (reqTag msg) of
              None \<Rightarrow> None
            | Some r \<Rightarrow> Some (if \<not> r then arr_at msg (int (length msg) - 2)
                              else arr_at msg (int (length msg) - 1)))
         else Some (arr_at msg (int (length msg) - 2)))
      else Some (arr_at msg (int (length msg) - 1)))"

text \<open>The second half of \<^verbatim>\<open>_validateMessageSeq\<close>, from \<^verbatim>\<open>if (!_isFinite(authSeq))\<close> on.\<close>

definition checkAuthSeq :: "jsval list \<Rightarrow> ws_state \<Rightarrow> ws_error option \<times> ws_state" where
  "checkAuthSeq msg s =
     (case authSeqOf msg of
        JNum a \<Rightarrow>
          if a = 0 then (None, s)
          else if js_strict_eq (arr_at msg 1) (JStr ''n'') then
            (if a \<noteq> lastAuthSeq s then Some (AuthSeqNoAdvancement a) else None, s)
          else if a = lastAuthSeq s then (Some (AuthSeqSame a), s)
          else if lastAuthSeq s \<noteq> - 1 \<and> a \<noteq> lastAuthSeq s + 1 then
            (Some (InvalidAuthSeq (lastAuthSeq s) a), s)
          else (None, s\<lparr>lastAuthSeq := a\<rparr>)
      | _ \<Rightarrow> (None, s))"

text \<open>
  The whole function: the returned \<^verbatim>\<open>Error\<close> (or \<^verbatim>\<open>null\<close>) with the updated
  counters; the outer \<open>None\<close> is a thrown TypeError.
\<close>

definition validateMessageSeq :: "jsval \<Rightarrow> ws_state \<Rightarrow> (ws_error option \<times> ws_state) option" where
  "validateMessageSeq m s =
     (if \<not> seqAudit s then Some (None, s)
      else case m of
        JArr msg \<Rightarrow>
          if msg = [] then Some (None, s)
          else if \<not> isReqEcho msg then
            (case pubSeqOf msg of
               None \<Rightarrow> None
             | Some (JNum q) \<Rightarrow>
                 if lastPubSeq s = - 1 then Some (None, s\<lparr>lastPubSeq := q\<rparr>)
                 else if q \<noteq> lastPubSeq s + 1 then Some (Some (InvalidPubSeq (lastPubSeq s) q), s)
                 else Some (checkAuthSeq msg (s\<lparr>lastPubSeq := q\<rparr>))
             | Some _ \<Rightarrow> Some (None, s))
          else Some (checkAuthSeq msg s)
      | _ \<Rightarrow> Some (None, s))"


section \<open>Construction\<close>

text \<open>
  The options the constructor reads for the fields above. A flag option counts only when
  it is exactly \<^verbatim>\<open>true\<close>; the buffering delay is a number or absent.
\<close>

record ws_opts =
  optApiKey :: jsval
  optApiSecret :: jsval
  optTransform :: bool
  optOrderOpBufferDelay :: "int option"
  optSeqAudit :: bool
  optAutoReconnect :: bool
  optManageOrderBooks :: bool
  optManageCandles :: bool

text \<open>The default argument \<^verbatim>\<open>{ apiKey: '', apiSecret: '', url: WSv2.url, affCode: null }\<close>.\<close>

definition defaultOpts :: ws_opts where
  "defaultOpts = \<lparr> optApiKey = JStr [], optApiSecret = JStr [], optTransform = False,
     optOrderOpBufferDelay = None, optSeqAudit = False, optAutoReconnect = False,
     optManageOrderBooks = False, optManageCandles = False \<rparr>"

definition SEQ_ALL :: nat where
  "SEQ_ALL = 65536"

text \<open>
  \<^verbatim>\<open>constructor\<close>. \<^verbatim>\<open>opts.orderOpBufferDelay || -1\<close> turns an absent delay and a delay
  of \<open>0\<close> into \<open>-1\<close>.
\<close>

definition newWSv2 :: "ws_opts \<Rightarrow> ws_state" where
  "newWSv2 opts = \<lparr>
     seqAudit = optSeqAudit opts,
     lastPubSeq = - 1,
     lastAuthSeq = - 1,
     transform = optTransform opts,
     manageOrderBooks = optManageOrderBooks opts,
     manageCandles = optManageCandles opts,
     orderBooks = Map.empty,
     losslessOrderBooks = Map.empty,
     candles = Map.empty,
     listeners = [],
     subscriptionRefs = Map.empty,
     channelMap = [],
     prevChannelMap = [],
     enabledFlags = (if optSeqAudit opts then SEQ_ALL else 0),
     hasSocket = False,
     isOpen = False,
     isClosing = False,
     isReconnecting = False,
     isAuthenticated = False,
     authOnReconnect = False,
     autoReconnect = optAutoReconnect opts,
     orderOpBufferDelay = (case optOrderOpBufferDelay opts of
                             None \<Rightarrow> - 1
                           | Some d \<Rightarrow> if d \<noteq> 0 then d else - 1),
     orderOpBuffer = [],
     orderOpTimeout = False,
     authArgs = [(''apiKey'', optApiKey opts), (''apiSecret'', optApiSecret opts)],
     sent = [],
     emitted = [],
     calls = [] \<rparr>"

section \<open>Sending and subscriptions\<close>

text \<open>
  \<^verbatim>\<open>send\<close>: a frame reaches the socket only when a socket exists, the connection is
  open and no close is in progress; otherwise an error is emitted and nothing is sent.
\<close>

definition send :: "jsval \<Rightarrow> ws_state \<Rightarrow> ws_state" where
  "send m s =
     (if \<not> hasSocket s \<or> \<not> isOpen s then s\<lparr>emitted := emitted s @ [EmitError NoClientOrNotOpen]\<rparr>
      else if isClosing s then s\<lparr>emitted := emitted s @ [EmitError CurrentlyClosing]\<rparr>
      else s\<lparr>sent := sent s @ [m]\<rparr>)"

text \<open>\<^verbatim>\<open>subscribe\<close> and \<^verbatim>\<open>unsubscribe\<close> build their request objects and send them.\<close>

definition subscribeMsg :: "string \<Rightarrow> (string \<times> jsval) list \<Rightarrow> jsval" where
  "subscribeMsg channel payload =
     JObj (obj_assign [(''event'', JStr ''subscribe''), (''channel'', JStr channel)] payload)"

definition subscribe :: "string \<Rightarrow> (string \<times> jsval) list \<Rightarrow> ws_state \<Rightarrow> ws_state" where
  "subscribe channel payload s = send (subscribeMsg channel payload) s"

definition unsubscribeMsg :: "nat \<Rightarrow> jsval" where
  "unsubscribeMsg chanId = JObj [(''event'', JStr ''unsubscribe''), (''chanId'', JNum (int chanId))]"

definition unsubscribe :: "nat \<Rightarrow> ws_state \<Rightarrow> ws_state" where
  "unsubscribe chanId s = send (unsubscribeMsg chanId) s"

text \<open>
  \<^verbatim>\<open>_chanIdByIdentifier\<close>: the first channel, in key order, of the given type whose
  \<^verbatim>\<open>symbol\<close> or \<^verbatim>\<open>key\<close> is the identifier; \<open>None\<close> is the \<^verbatim>\<open>null\<close> result.
\<close>

fun chanIdLoop :: "(nat \<times> jsval) list \<Rightarrow> string \<Rightarrow> string \<Rightarrow> nat option" where
  "chanIdLoop [] channel identifier = None"
| "chanIdLoop ((cid, chan) # rest) channel identifier =
     (if js_strict_eq (js_prop chan ''channel'') (JStr channel)
         \<and> (js_strict_eq (js_prop chan ''symbol'') (JStr identifier)
            \<or> js_strict_eq (js_prop chan ''key'') (JStr identifier))
      then Some cid
      else chanIdLoop rest channel identifier)"

definition chanIdByIdentifier :: "string \<Rightarrow> string \<Rightarrow> ws_state \<Rightarrow> nat option" where
  "chanIdByIdentifier channel identifier s = chanIdLoop (channelMap s) channel identifier"

definition refKey :: "string \<Rightarrow> string \<Rightarrow> string" where
  "refKey channel identifier = channel @ '':'' @ identifier"

text \<open>
  \<^verbatim>\<open>managedSubscribe\<close>: a truthy count is incremented and \<^verbatim>\<open>false\<close> returned;
  otherwise the count becomes 1, a subscribe request is issued and \<^verbatim>\<open>true\<close> returned.
\<close>

definition managedSubscribe ::
  "string \<Rightarrow> string \<Rightarrow> (string \<times> jsval) list \<Rightarrow> ws_state \<Rightarrow> bool \<times> ws_state" where
  "managedSubscribe channel identifier payload s =
     (let key = refKey channel identifier in
      case subscriptionRefs s key of
        Some n \<Rightarrow>
          if n \<noteq> 0 then (False, s\<lparr>subscriptionRefs := (subscriptionRefs s)(key \<mapsto> n + 1)\<rparr>)
          else (True, subscribe channel payload (s\<lparr>subscriptionRefs := (subscriptionRefs s)(key \<mapsto> 1)\<rparr>))
      | None \<Rightarrow>
          (True, subscribe channel payload (s\<lparr>subscriptionRefs := (subscriptionRefs s)(key \<mapsto> 1)\<rparr>)))"

text \<open>
  \<^verbatim>\<open>managedUnsubscribe\<close>: nothing happens without a channel id for the pair or without
  a count (\<^verbatim>\<open>isNaN(undefined)\<close>); otherwise the count is decremented, and at zero an
  unsubscribe request is issued and the count deleted.
\<close>

definition managedUnsubscribe :: "string \<Rightarrow> string \<Rightarrow> ws_state \<Rightarrow> bool \<times> ws_state" where
  "managedUnsubscribe channel identifier s =
     (let key = refKey channel identifier in
      case chanIdByIdentifier channel identifier s of
        None \<Rightarrow> (False, s)
      | Some chanId \<Rightarrow>
          (case subscriptionRefs s key of
             None \<Rightarrow> (False, s)
           | Some n \<Rightarrow>
               let s1 = s\<lparr>subscriptionRefs := (subscriptionRefs s)(key \<mapsto> n - 1)\<rparr> in
               if n - 1 > 0 then (False, s1)
               else let s2 = unsubscribe chanId s1
                    in (True, s2\<lparr>subscriptionRefs := (subscriptionRefs s2)(key := None)\<rparr>)))"

text \<open>Repeated calls for one pair, collecting the returned flags in call order.\<close>

fun managedSubscribes ::
  "string \<Rightarrow> string \<Rightarrow> (string \<times> jsval) list list \<Rightarrow> ws_state \<Rightarrow> bool list \<times> ws_state" where
  "managedSubscribes channel identifier [] s = ([], s)"
| "managedSubscribes channel identifier (p # ps) s =
     (let (r, s1) = managedSubscribe channel identifier p s;
          (rs, s2) = managedSubscribes channel identifier ps s1
      in (r # rs, s2))"

fun managedUnsubscribes :: "string \<Rightarrow> string \<Rightarrow> nat \<Rightarrow> ws_state \<Rightarrow> bool list \<times> ws_state" where
  "managedUnsubscribes channel identifier 0 s = ([], s)"
| "managedUnsubscribes channel identifier (Suc k) s =
     (let (r, s1) = managedUnsubscribe channel identifier s;
          (rs, s2) = managedUnsubscribes channel identifier k s1
      in (r # rs, s2))"

text \<open>
  Writing a channel map entry keeps the ascending key order. The server assigns
  non-negative integer channel ids; \<^verbatim>\<open>_handleSubscribedEvent\<close> stores the whole
  confirmation under its \<^verbatim>\<open>chanId\<close> and emits it.
\<close>

fun chanMapSet :: "(nat \<times> jsval) list \<Rightarrow> nat \<Rightarrow> jsval \<Rightarrow> (nat \<times> jsval) list" where
  "chanMapSet [] k v = [(k, v)]"
| "chanMapSet ((k', v') # rest) k v =
     (if k = k' then (k, v) # rest
      else if k < k' then (k, v) # (k', v') # rest
      else (k', v') # chanMapSet rest k v)"

definition handleSubscribedEvent :: "nat \<Rightarrow> jsval \<Rightarrow> ws_state \<Rightarrow> ws_state" where
  "handleSubscribedEvent chanId msg s =
     s\<lparr>channelMap := chanMapSet (channelMap s) chanId msg,
       emitted := emitted s @ [Emit ''subscribed'' [msg]]\<rparr>"

section \<open>Connection lifecycle\<close>

text \<open>
  \<^verbatim>\<open>open\<close>, up to the point where it waits for the socket's open event: it throws when
  a connection is open or a socket exists, and otherwise creates the socket and clears
  \<^verbatim>\<open>_subscriptionRefs\<close>, \<^verbatim>\<open>_candles\<close> and \<^verbatim>\<open>_orderBooks\<close>.
\<close>

definition ws_open :: "ws_state \<Rightarrow> ws_error + ws_state" where
  "ws_open s =
     (if isOpen s \<or> hasSocket s then Inl AlreadyOpen
      else Inr (s\<lparr>hasSocket := True,
                  subscriptionRefs := Map.empty,
                  candles := Map.empty,
                  orderBooks := Map.empty\<rparr>))"

text \<open>
  \<^verbatim>\<open>close\<close>, up to the point where it waits for the socket's close event: it throws
  when no connection is open, and otherwise marks the close as in progress (the close
  frame is handed to the socket only once). \<^verbatim>\<open>_isOpen\<close> and \<^verbatim>\<open>_isAuthenticated\<close> stay
  as they are until the close event.
\<close>

definition ws_close :: "ws_state \<Rightarrow> ws_error + ws_state" where
  "ws_close s =
     (if \<not> isOpen s \<or> \<not> hasSocket s then Inl NotOpen
      else Inr (if \<not> isClosing s then s\<lparr>isClosing := True\<rparr> else s))"

definition sendEnabledFlags :: "ws_state \<Rightarrow> ws_state" where
  "sendEnabledFlags s = send (JObj [(''event'', JStr ''conf''), (''flags'', JNum (int (enabledFlags s)))]) s"

text \<open>
  \<^verbatim>\<open>resubscribePreviousChannels\<close>: one managed subscription per remembered channel of a
  known type. An absent identifier falls back to the parameter default \<^verbatim>\<open>''\<close>, absent
  book precision and length to \<^verbatim>\<open>'P0'\<close> and \<^verbatim>\<open>'25'\<close>.
\<close>

definition identifierOf :: "jsval \<Rightarrow> string" where
  "identifierOf v = (if v = JUndefined then [] else js_to_string v)"

definition js_default :: "jsval \<Rightarrow> jsval \<Rightarrow> jsval" where
  "js_default v d = (if v = JUndefined then d else v)"

definition resubscribeChannel :: "jsval \<Rightarrow> ws_state \<Rightarrow> ws_state" where
  "resubscribeChannel chan s =
     (let channel = js_prop chan ''channel''; symbol = js_prop chan ''symbol''; key = js_prop chan ''key'' in
      if js_strict_eq channel (JStr ''ticker'') then
        snd (managedSubscribe ''ticker'' (identifierOf symbol) [(''symbol'', symbol)] s)
      else if js_strict_eq channel (JStr ''trades'') then
        snd (managedSubscribe ''trades'' (identifierOf symbol) [(''symbol'', symbol)] s)
      else if js_strict_eq channel (JStr ''book'') then
        snd (managedSubscribe ''book'' (identifierOf symbol)
               [(''symbol'', symbol),
                (''len'', js_default (js_prop chan ''len'') (JStr ''25'')),
                (''prec'', js_default (js_prop chan ''prec'') (JStr ''P0''))] s)
      else if js_strict_eq channel (JStr ''candles'') then
        snd (managedSubscribe ''candles'' (identifierOf key) [(''key'', key)] s)
      else s)"

fun resubscribePreviousChannels :: "(nat \<times> jsval) list \<Rightarrow> ws_state \<Rightarrow> ws_state" where
  "resubscribePreviousChannels [] s = s"
| "resubscribePreviousChannels ((cid, chan) # rest) s =
     resubscribePreviousChannels rest (resubscribeChannel chan s)"

text \<open>\<^verbatim>\<open>_onWSOpen\<close>, and the open-event handler that \<^verbatim>\<open>open\<close> installs around it.\<close>

definition onWSOpen :: "ws_state \<Rightarrow> ws_state" where
  "onWSOpen s =
     (let s1 = s\<lparr>isOpen := True, isReconnecting := False, lastAuthSeq := - 1, lastPubSeq := - 1,
                 emitted := emitted s @ [Emit ''open'' []]\<rparr>
      in if prevChannelMap s1 \<noteq> [] then
           (resubscribePreviousChannels (prevChannelMap s1) s1)\<lparr>prevChannelMap := []\<rparr>
         else s1)"

definition openEvent :: "ws_state \<Rightarrow> ws_state" where
  "openEvent s = (let s1 = onWSOpen s in if enabledFlags s1 \<noteq> 0 then sendEnabledFlags s1 else s1)"

text \<open>
  \<^verbatim>\<open>_onWSClose\<close>. When a reconnect was requested, or auto-reconnect is on and the close
  was not asked for, the channel map is kept as the previous channel map (the timer that
  later calls \<^verbatim>\<open>reconnectAfterClose\<close> is not part of the state). The channel map itself
  is emptied here in every case.
\<close>

definition onWSClose :: "ws_state \<Rightarrow> ws_state" where
  "onWSClose s =
     (let s1 = s\<lparr>isOpen := False, isAuthenticated := False, lastAuthSeq := - 1, lastPubSeq := - 1,
                 enabledFlags := 0, hasSocket := False, subscriptionRefs := Map.empty,
                 emitted := emitted s @ [Emit ''close'' []]\<rparr>;
          s2 = (if isReconnecting s1 \<or> (autoReconnect s1 \<and> \<not> isClosing s1)
                then s1\<lparr>prevChannelMap := channelMap s1\<rparr> else s1)
      in s2\<lparr>channelMap := [], isClosing := False\<rparr>)"

text \<open>
  \<^verbatim>\<open>auth\<close>, up to the point where it waits for the confirmation. The nonce and the
  signing function come from \<^verbatim>\<open>bfx-api-node-util\<close> and are parameters. The result pairs
  the thrown error, if any, with the state: the assignment to \<^verbatim>\<open>_authOnReconnect\<close>
  precedes both checks and stays when they throw.
\<close>

definition authMsg :: "(jsval \<Rightarrow> string \<Rightarrow> string) \<Rightarrow> string \<Rightarrow> jsval \<Rightarrow> jsval \<Rightarrow> ws_state \<Rightarrow> jsval" where
  "authMsg genAuthSig authNonce calc dms s =
     (let authPayload = ''AUTH'' @ authNonce @ authNonce;
          sig = genAuthSig (js_prop (JObj (authArgs s)) ''apiSecret'') authPayload;
          args1 = (if js_isFinite calc then obj_set (authArgs s) ''calc'' calc else authArgs s);
          args2 = (if js_isFinite dms then obj_set args1 ''dms'' dms else args1)
      in JObj (obj_assign
           [(''event'', JStr ''auth''),
            (''apiKey'', js_prop (JObj (authArgs s)) ''apiKey''),
            (''authSig'', JStr sig),
            (''authPayload'', JStr authPayload),
            (''authNonce'', JStr authNonce)] args2))"

definition auth ::
  "(jsval \<Rightarrow> string \<Rightarrow> string) \<Rightarrow> string \<Rightarrow> jsval \<Rightarrow> jsval \<Rightarrow> ws_state \<Rightarrow> ws_error option \<times> ws_state" where
  "auth genAuthSig authNonce calc dms s =
     (let s1 = s\<lparr>authOnReconnect := True\<rparr> in
      if \<not> isOpen s1 then (Some NotOpen, s1)
      else if isAuthenticated s1 then (Some AlreadyAuthenticated, s1)
      else (None, send (authMsg genAuthSig authNonce calc dms s1) s1))"

text \<open>
  \<^verbatim>\<open>reconnectAfterClose\<close>, with the socket's open event taken to arrive right after
  \<^verbatim>\<open>open\<close>: the guard hands over to \<^verbatim>\<open>reconnect\<close> (\<open>None\<close>, not followed here);
  otherwise the connection is reopened and, when \<^verbatim>\<open>_authOnReconnect\<close> is set,
  \<^verbatim>\<open>auth()\<close> is called without arguments.
\<close>

definition reconnectAfterClose ::
  "(jsval \<Rightarrow> string \<Rightarrow> string) \<Rightarrow> string \<Rightarrow> ws_state \<Rightarrow> (ws_error option \<times> ws_state) option" where
  "reconnectAfterClose genAuthSig authNonce s =
     (if \<not> isReconnecting s \<or> hasSocket s \<or> isOpen s then None
      else case ws_open s of
        Inl e \<Rightarrow> Some (Some e, s)
      | Inr s1 \<Rightarrow>
          let s2 = openEvent s1 in
          if authOnReconnect s2 then Some (auth genAuthSig authNonce JUndefined JUndefined s2)
          else Some (None, s2))"

section \<open>Order operations\<close>

text \<open>
  \<^verbatim>\<open>submitOrderMultiOp\<close> rejects when not authenticated and otherwise sends one
  \<^verbatim>\<open>ox_multi\<close> frame with the given operations.
\<close>

definition multiOpMsg :: "jsval list \<Rightarrow> jsval" where
  "multiOpMsg opPayloads = JArr [JNum 0, JStr ''ox_multi'', JNull, JArr opPayloads]"

definition submitOrderMultiOp :: "jsval list \<Rightarrow> ws_state \<Rightarrow> ws_error option \<times> ws_state" where
  "submitOrderMultiOp opPayloads s =
     (if \<not> isAuthenticated s then (Some NotAuthenticated, s)
      else (None, send (multiOpMsg opPayloads) s))"

definition hasOrderBuff :: "ws_state \<Rightarrow> bool" where
  "hasOrderBuff s = (orderOpBufferDelay s > 0)"

definition ensureOrderBuffTimeout :: "ws_state \<Rightarrow> ws_state" where
  "ensureOrderBuffTimeout s = (if orderOpTimeout s then s else s\<lparr>orderOpTimeout := True\<rparr>)"

definition sendOrderPacket :: "jsval \<Rightarrow> ws_state \<Rightarrow> ws_state" where
  "sendOrderPacket packet s =
     (if hasOrderBuff s then
        (let s1 = ensureOrderBuffTimeout s in s1\<lparr>orderOpBuffer := orderOpBuffer s1 @ [packet]\<rparr>)
      else send packet s)"

text \<open>
  \<^verbatim>\<open>_flushOrderOps\<close>. Each buffered packet \<^verbatim>\<open>[0, type, null, payload]\<close> becomes the
  operation \<^verbatim>\<open>[type, payload]\<close>. Up to 15 operations go out in one call; a longer
  list is consumed by the \<^verbatim>\<open>while\<close> loop, 15 at a time. The result lists the
  outcome of every \<^verbatim>\<open>submitOrderMultiOp\<close> call in order.
\<close>

definition opOfPacket :: "jsval \<Rightarrow> jsval" where
  "opOfPacket p = JArr [js_idx p 1, js_idx p 3]"

function flushLoop :: "jsval list \<Rightarrow> ws_state \<Rightarrow> ws_error option list \<times> ws_state" where
  "flushLoop packets s =
     (if length packets > 0 then
        (let n = min (length packets) 15;
             (r, s1) = submitOrderMultiOp (take n packets) s;
             (rs, s2) = flushLoop (drop n packets) s1
         in (r # rs, s2))
      else ([], s))"
  by pat_completeness auto
termination
  by (relation "measure (\<lambda>(packets, s). length packets)") auto

declare flushLoop.simps [simp del]

definition flushOrderOps :: "ws_state \<Rightarrow> ws_error option list \<times> ws_state" where
  "flushOrderOps s =
     (let packets = map opOfPacket (orderOpBuffer s);
          s1 = s\<lparr>orderOpTimeout := False, orderOpBuffer := []\<rparr>
      in if length packets \<le> 15 then
           (let (r, s2) = submitOrderMultiOp packets s1 in ([r], s2))
         else flushLoop packets s1)"

text \<open>
  The batches as the specification words them: the queue cut, in order, into consecutive
  runs of 15 operations, the last one possibly shorter. The flush is compared with this.
\<close>

function batchesOf15 :: "'a list \<Rightarrow> 'a list list" where
  "batchesOf15 xs = (if xs = [] then [] else take 15 xs # batchesOf15 (drop 15 xs))"
  by pat_completeness auto
termination
  by (relation "measure length") auto

declare batchesOf15.simps [simp del]

section \<open>Managed candles and order books\<close>

text \<open>
  The update loop of \<^verbatim>\<open>_updateManagedCandles\<close>: the first stored candle whose element
  0 is strictly equal to the update's is overwritten and the loop stops; the flag says
  whether that happened. Reading element 0 of a stored \<^verbatim>\<open>null\<close> throws (\<open>None\<close>).
\<close>

fun replaceCandle :: "jsval \<Rightarrow> jsval \<Rightarrow> jsval list \<Rightarrow> (jsval list \<times> bool) option" where
  "replaceCandle d0 data [] = Some ([], False)"
| "replaceCandle d0 data (c # cs) =
     (case js_get c 0 of
        None \<Rightarrow> None
      | Some t \<Rightarrow>
          if js_strict_eq d0 t then Some (data # cs, True)
          else (case replaceCandle d0 data cs of
                  None \<Rightarrow> None
                | Some (cs', updated) \<Rightarrow> Some (c # cs', updated)))"

text \<open>
  The snapshot comparator \<^verbatim>\<open>(a, b) => b[0] - a[0]\<close> orders candles by descending open
  time; the sort is stable. Snapshot items are arrays that start with a numeric open time.
\<close>

definition openTime :: "jsval \<Rightarrow> int" where
  "openTime c = (case js_idx c 0 of JNum t \<Rightarrow> t | _ \<Rightarrow> 0)"

definition sortCandles :: "jsval list \<Rightarrow> jsval list" where
  "sortCandles cs = sort_key (\<lambda>c. - openTime c) cs"

text \<open>
  \<^verbatim>\<open>_updateManagedCandles\<close>: the returned error (or \<^verbatim>\<open>null\<close>) with the new state;
  the outer \<open>None\<close> is a TypeError, thrown before anything is written.
\<close>

definition updateManagedCandles ::
  "string \<Rightarrow> jsval \<Rightarrow> ws_state \<Rightarrow> (ws_error option \<times> ws_state) option" where
  "updateManagedCandles key data s =
     (case js_get data 0 of
        None \<Rightarrow> None
      | Some d0 \<Rightarrow>
          if js_is_array d0 then
            (case data of
               JArr items \<Rightarrow> Some (None, s\<lparr>candles := (candles s)(key \<mapsto> sortCandles items)\<rparr>)
             | _ \<Rightarrow> None)
          else
            (case candles s key of
               None \<Rightarrow> Some (Some (UnknownCandles key), s)
             | Some cs \<Rightarrow>
                 (case replaceCandle d0 data cs of
                    None \<Rightarrow> None
                  | Some (cs', updated) \<Rightarrow>
                      Some (None, s\<lparr>candles := (candles s)(key \<mapsto> (if updated then cs' else data # cs))\<rparr>))))"

text \<open>
  \<^verbatim>\<open>_updateManagedOB\<close>. The lossless parse of the raw frame (\<^verbatim>\<open>lossless-json\<close>) and
  the level merge \<^verbatim>\<open>OrderBook.updateArrayOBWith\<close> (\<^verbatim>\<open>bfx-api-node-models\<close>) are
  parameters. A snapshot replaces both books; an update needs a numeric book.
\<close>

definition updateManagedOB ::
  "(jsval \<Rightarrow> jsval \<Rightarrow> bool \<Rightarrow> jsval) \<Rightarrow> string \<Rightarrow> jsval \<Rightarrow> bool \<Rightarrow> jsval \<Rightarrow> ws_state
     \<Rightarrow> (ws_error option \<times> ws_state) option" where
  "updateManagedOB updateArrayOBWith symbol data raw rawLossless s =
     (case js_get rawLossless 1 of
        None \<Rightarrow> None
      | Some losslessUpdate \<Rightarrow>
          (case js_get data 0 of
             None \<Rightarrow> None
           | Some d0 \<Rightarrow>
               if js_is_array d0 then
                 Some (None, s\<lparr>orderBooks := (orderBooks s)(symbol \<mapsto> data),
                                losslessOrderBooks := (losslessOrderBooks s)(symbol \<mapsto> losslessUpdate)\<rparr>)
               else
                 (case orderBooks s symbol of
                    None \<Rightarrow> Some (Some (UnknownOB symbol), s)
                  | Some ob \<Rightarrow>
                      if \<not> js_truthy ob then Some (Some (UnknownOB symbol), s)
                      else
                        (case losslessOrderBooks s symbol of
                           None \<Rightarrow> None
                         | Some lob \<Rightarrow>
                             Some (None,
                               s\<lparr>orderBooks := (orderBooks s)(symbol \<mapsto> updateArrayOBWith ob data raw),
                                 losslessOrderBooks :=
                                   (losslessOrderBooks s)(symbol \<mapsto> updateArrayOBWith lob losslessUpdate raw)\<rparr>)))))"

text \<open>
  \<^verbatim>\<open>_verifyManagedOBChecksum\<close>, with \<^verbatim>\<open>OrderBook.checksumArr\<close> as a parameter. The
  lossless store only ever holds parsed arrays, never an \<^verbatim>\<open>OrderBook\<close> instance, so the
  \<^verbatim>\<open>instanceof\<close> branch is not taken.
\<close>

definition verifyManagedOBChecksum ::
  "(jsval \<Rightarrow> bool \<Rightarrow> jsval) \<Rightarrow> string \<Rightarrow> jsval \<Rightarrow> jsval \<Rightarrow> ws_state \<Rightarrow> ws_error option" where
  "verifyManagedOBChecksum checksumArr symbol prec cs s =
     (case losslessOrderBooks s symbol of
        None \<Rightarrow> None
      | Some ob \<Rightarrow>
          if \<not> js_truthy ob then None
          else (let localCS = checksumArr ob (js_strict_eq prec (JStr ''R0''))
                in if \<not> js_strict_eq localCS cs then Some (ChecksumMismatch localCS cs) else None))"

section \<open>Listeners and dispatch\<close>

text \<open>
  lodash \<^verbatim>\<open>isEmpty\<close>, as the library documents it: \<^verbatim>\<open>null\<close> and \<^verbatim>\<open>undefined\<close> are
  empty, a string or an array is empty when its length is 0, an object when it has no
  own enumerable property, and every number and boolean is empty.
\<close>

fun js_isEmpty :: "jsval \<Rightarrow> bool" where
  "js_isEmpty JUndefined = True"
| "js_isEmpty JNull = True"
| "js_isEmpty (JBool b) = True"
| "js_isEmpty (JNum n) = True"
| "js_isEmpty JNaN = True"
| "js_isEmpty (JStr s) = (s = [])"
| "js_isEmpty (JArr xs) = (xs = [])"
| "js_isEmpty (JObj kvs) = (kvs = [])"

text \<open>
  \<^verbatim>\<open>_payloadPassesFilter\<close>: every filter entry whose value is neither empty nor
  \<^verbatim>\<open>'*'\<close> must be strictly equal to the payload at that position. Reading a position
  of a \<^verbatim>\<open>null\<close> or \<^verbatim>\<open>undefined\<close> payload throws (\<open>None\<close>).
\<close>

fun payloadPassesFilter :: "jsval \<Rightarrow> (nat \<times> jsval) list \<Rightarrow> bool option" where
  "payloadPassesFilter payload [] = Some True"
| "payloadPassesFilter payload ((k, filterValue) # rest) =
     (if js_isEmpty filterValue \<or> js_strict_eq filterValue (JStr ''*'') then
        payloadPassesFilter payload rest
      else
        (case js_get payload k of
           None \<Rightarrow> None
         | Some pv \<Rightarrow>
             if \<not> js_strict_eq pv filterValue then Some False
             else payloadPassesFilter payload rest))"

text \<open>
  A packet as the dispatch sees it: the array \<^verbatim>\<open>[chanId, eventName, data]\<close> and the
  \<^verbatim>\<open>filterOverride\<close> array that the channel handlers attach to it.
\<close>

record packet =
  elems :: "jsval list"
  filterOverride :: "jsval list option"

datatype completion = Returned | ThrewTypeError

definition filterByData :: "packet \<Rightarrow> jsval \<Rightarrow> jsval" where
  "filterByData pk item = (case filterOverride pk of Some ov \<Rightarrow> JArr ov | None \<Rightarrow> item)"

text \<open>\<^verbatim>\<open>data.filter(...)\<close> over a snapshot visits every item; the listener passes when one matched.\<close>

fun anyItemPasses :: "packet \<Rightarrow> (nat \<times> jsval) list \<Rightarrow> jsval list \<Rightarrow> bool option" where
  "anyItemPasses pk flt [] = Some False"
| "anyItemPasses pk flt (item # items) =
     (case payloadPassesFilter (filterByData pk item) flt of
        None \<Rightarrow> None
      | Some b \<Rightarrow>
          (case anyItemPasses pk flt items of
             None \<Rightarrow> None
           | Some r \<Rightarrow> Some (b \<or> r)))"

text \<open>
  The predicate given to \<^verbatim>\<open>lGroup[eventName].filter\<close>: a listener without filter passes;
  otherwise \<^verbatim>\<open>data[0]\<close> decides between the snapshot and the single-packet check.
\<close>

definition listenerPasses :: "packet \<Rightarrow> jsval \<Rightarrow> listener \<Rightarrow> bool option" where
  "listenerPasses pk data l =
     (case filter l of
        None \<Rightarrow> Some True
      | Some flt \<Rightarrow>
          (case js_get data 0 of
             None \<Rightarrow> None
           | Some d0 \<Rightarrow>
               if js_is_array d0 then
                 (case data of
                    JArr items \<Rightarrow> anyItemPasses pk flt items
                  | _ \<Rightarrow> None)
               else payloadPassesFilter (filterByData pk data) flt))"

fun filterListeners :: "packet \<Rightarrow> jsval \<Rightarrow> listener list \<Rightarrow> listener list option" where
  "filterListeners pk data [] = Some []"
| "filterListeners pk data (l # ls) =
     (case listenerPasses pk data l of
        None \<Rightarrow> None
      | Some b \<Rightarrow>
          (case filterListeners pk data ls of
             None \<Rightarrow> None
           | Some ps \<Rightarrow> Some (if b then l # ps else ps)))"

text \<open>\<^verbatim>\<open>data.length === 0\<close>; reading \<^verbatim>\<open>length\<close> of \<^verbatim>\<open>null\<close> throws.\<close>

fun lengthIsZero :: "jsval \<Rightarrow> bool option" where
  "lengthIsZero JUndefined = None"
| "lengthIsZero JNull = None"
| "lengthIsZero (JArr xs) = Some (xs = [])"
| "lengthIsZero (JStr s) = Some (s = [])"
| "lengthIsZero (JObj kvs) = Some (js_strict_eq (js_prop (JObj kvs) ''length'') (JNum 0))"
| "lengthIsZero v = Some False"

text \<open>What a matched listener's callback is called with.\<close>

definition callbackArg :: "bool \<Rightarrow> jsval \<Rightarrow> listener \<Rightarrow> cb_arg option" where
  "callbackArg transf data l =
     (case modelClass l of
        None \<Rightarrow> Some (Raw data)
      | Some mc \<Rightarrow>
          if \<not> transf then Some (Raw data)
          else (case lengthIsZero data of
                  None \<Rightarrow> None
                | Some z \<Rightarrow>
                    if z then Some (Raw data)
                    else if js_is_array (js_idx data 0) then
                      (case data of JArr items \<Rightarrow> Some (Models mc items) | _ \<Rightarrow> None)
                    else Some (Model mc data)))"

fun invokeListeners :: "bool \<Rightarrow> jsval \<Rightarrow> jsval \<Rightarrow> listener list \<Rightarrow> cb_call list \<times> completion" where
  "invokeListeners transf data chanData [] = ([], Returned)"
| "invokeListeners transf data chanData (l # ls) =
     (case callbackArg transf data l of
        None \<Rightarrow> ([], ThrewTypeError)
      | Some arg \<Rightarrow>
          (let (cs, c) = invokeListeners transf data chanData ls
           in (Call l arg chanData # cs, c)))"

text \<open>\<^verbatim>\<open>_notifyCatchAllListeners\<close>: every listener under \<^verbatim>\<open>''\<close> gets the packet itself.\<close>

definition notifyCatchAllListeners :: "(string \<times> listener list) list \<Rightarrow> packet \<Rightarrow> cb_call list" where
  "notifyCatchAllListeners lGroup pk =
     (case map_of lGroup [] of
        None \<Rightarrow> []
      | Some ls \<Rightarrow> map (\<lambda>l. Call l (Raw (JArr (elems pk))) JUndefined) ls)"

text \<open>
  \<^verbatim>\<open>_notifyListenerGroup\<close>: the callbacks invoked, in order, and how the call ended. The
  catch-all listeners run first; a TypeError in the filter pass leaves only their calls.
\<close>

definition notifyListenerGroup ::
  "(string \<times> listener list) list \<Rightarrow> packet \<Rightarrow> bool \<Rightarrow> jsval \<Rightarrow> cb_call list \<times> completion" where
  "notifyListenerGroup lGroup pk transf chanData =
     (let eventName = arr_at (elems pk) 1;
          data = js_default (arr_at (elems pk) 2) (JArr []);
          c0 = notifyCatchAllListeners lGroup pk
      in case map_of lGroup (js_to_string eventName) of
           None \<Rightarrow> (c0, Returned)
         | Some ls \<Rightarrow>
             if ls = [] then (c0, Returned)
             else (case filterListeners pk data ls of
                     None \<Rightarrow> (c0, ThrewTypeError)
                   | Some ps \<Rightarrow>
                       if ps = [] then (c0, Returned)
                       else (let (cs, c) = invokeListeners transf data chanData ps
                             in (c0 @ cs, c))))"

text \<open>
  \<^verbatim>\<open>_propagateMessageToListeners\<close>: the groups are notified in the order of
  \<^verbatim>\<open>Object.values(this._listeners)\<close>, and a TypeError ends the loop.
\<close>

fun propagateLoop ::
  "(string \<times> (string \<times> listener list) list) list \<Rightarrow> packet \<Rightarrow> bool \<Rightarrow> jsval \<Rightarrow> cb_call list \<times> completion" where
  "propagateLoop [] pk transf chan = ([], Returned)"
| "propagateLoop ((gid, lGroup) # groups) pk transf chan =
     (case notifyListenerGroup lGroup pk transf chan of
        (cs, ThrewTypeError) \<Rightarrow> (cs, ThrewTypeError)
      | (cs, Returned) \<Rightarrow>
          (let (cs', c) = propagateLoop groups pk transf chan in (cs @ cs', c)))"

definition propagateMessageToListeners :: "packet \<Rightarrow> jsval \<Rightarrow> bool \<Rightarrow> ws_state \<Rightarrow> completion \<times> ws_state" where
  "propagateMessageToListeners pk chan transf s =
     (let (cs, c) = propagateLoop (listeners s) pk transf chan
      in (c, s\<lparr>calls := calls s @ cs\<rparr>))"

text \<open>
  \<^verbatim>\<open>_registerListener\<close>. A falsy group id becomes \<^verbatim>\<open>null\<close>; group and bucket are created
  on first use and the listener is appended to its bucket.
\<close>

definition registerListener ::
  "string \<Rightarrow> (nat \<times> jsval) list option \<Rightarrow> string option \<Rightarrow> jsval \<Rightarrow> nat \<Rightarrow> ws_state \<Rightarrow> ws_state" where
  "registerListener eventName flt mc cbGID c s =
     (let gkey = js_to_string (if js_truthy cbGID then cbGID else JNull);
          lGroup = (case map_of (listeners s) gkey of None \<Rightarrow> [(eventName, [])] | Some g \<Rightarrow> g);
          bucket = (case map_of lGroup eventName of None \<Rightarrow> [] | Some b \<Rightarrow> b);
          l = \<lparr>cb = c, modelClass = mc, filter = flt\<rparr>
      in s\<lparr>listeners := obj_set (listeners s) gkey (obj_set lGroup eventName (bucket @ [l]))\<rparr>)"

text \<open>\<^verbatim>\<open>onOrderNew({ symbol, id, cid, gid, cbGID }, cb)\<close>; \<open>oid\<close> is the option \<^verbatim>\<open>id\<close>.\<close>

definition onOrderNew :: "jsval \<Rightarrow> jsval \<Rightarrow> jsval \<Rightarrow> jsval \<Rightarrow> jsval \<Rightarrow> nat \<Rightarrow> ws_state \<Rightarrow> ws_state" where
  "onOrderNew symbol oid cid gid cbGID c s =
     registerListener ''on'' (Some [(0, oid), (1, gid), (2, cid), (3, symbol)]) (Some ''Order'') cbGID c s"

text \<open>lodash \<^verbatim>\<open>isNumber\<close>: the number type, \<^verbatim>\<open>NaN\<close> included.\<close>

fun js_isNumber :: "jsval \<Rightarrow> bool" where
  "js_isNumber (JNum n) = True"
| "js_isNumber JNaN = True"
| "js_isNumber v = False"

text \<open>
  The payloads that the channel handlers dispatch, as their documented types have them:
  the payload is not \<^verbatim>\<open>null\<close>, and a payload whose element 0 is an array (a snapshot) is
  itself an array whose items are not \<^verbatim>\<open>null\<close> or \<^verbatim>\<open>undefined\<close> unless a filter
  override stands in for them. On other payloads the dispatch throws a TypeError.
\<close>

definition wellFormedPayload :: "packet \<Rightarrow> jsval \<Rightarrow> bool" where
  "wellFormedPayload pk data =
     (case data of
        JNull \<Rightarrow> False
      | JUndefined \<Rightarrow> False
      | JArr items \<Rightarrow>
          (js_is_array (arr_at items 0) \<longrightarrow>
             filterOverride pk \<noteq> None \<or> (\<forall>it \<in> set items. \<not> js_nullish it))
      | _ \<Rightarrow> \<not> js_is_array (js_idx data 0))"

section \<open>Order book checksums\<close>

text \<open>
  \<^verbatim>\<open>_handleOBChecksumMessage\<close>, with \<^verbatim>\<open>OrderBook.checksumArr\<close> as a parameter. Only a
  symbol whose first character is \<^verbatim>\<open>t\<close> is verified; a mismatch is emitted as an error
  and ends the handler before anything is dispatched.
\<close>

definition handleOBChecksumMessage ::
  "(jsval \<Rightarrow> bool \<Rightarrow> jsval) \<Rightarrow> jsval list \<Rightarrow> jsval \<Rightarrow> ws_state \<Rightarrow> completion \<times> ws_state" where
  "handleOBChecksumMessage checksumArr msg chanData s =
     (let s1 = s\<lparr>emitted := emitted s @ [Emit ''cs'' [JArr msg]]\<rparr> in
      if \<not> manageOrderBooks s1 then (Returned, s1)
      else
        (let symbol = js_prop chanData ''symbol'';
             prec = js_prop chanData ''prec'';
             cs = arr_at msg 2
         in case js_get symbol 0 of
              None \<Rightarrow> (ThrewTypeError, s1)
            | Some c0 \<Rightarrow>
                (case (if js_strict_eq c0 (JStr ''t'')
                       then verifyManagedOBChecksum checksumArr (js_to_string symbol) prec cs s1
                       else None) of
                   Some err \<Rightarrow> (Returned, s1\<lparr>emitted := emitted s1 @ [EmitError err]\<rparr>)
                 | None \<Rightarrow>
                     (let internalMessage =
                            \<lparr>elems = [js_prop chanData ''chanId'', JStr ''ob_checksum'', cs],
                             filterOverride = Some [symbol, prec, js_prop chanData ''len'']\<rparr>;
                          (c, s2) = propagateMessageToListeners internalMessage (JBool False) (transform s1) s1
                      in case c of
                           ThrewTypeError \<Rightarrow> (ThrewTypeError, s2)
                         | Returned \<Rightarrow> (Returned, s2\<lparr>emitted := emitted s2 @ [Emit ''cs'' [symbol, cs]]\<rparr>)))))"

section \<open>Properties of the sequence audit\<close>

text \<open>
  Claim C1, as the code has it. For a packet that carries a public sequence number \<open>q\<close>
  while sequencing is on: with the stored counter unset (\<open>-1\<close>) the value seeds the
  counter and nothing is reported; with a stored counter and \<open>q\<close> equal to it plus one
  the counter advances to \<open>q\<close>, no public-sequence error is returned, and no error at all
  unless the packet is a non-heartbeat packet of the authenticated channel, whose
  authenticated sequence is then checked; with any other \<open>q\<close> exactly the
  public-sequence error is returned and the state is unchanged.
\<close>

theorem pub_seq_audit:
  assumes "seqAudit s" and "msg \<noteq> []" and "\<not> isReqEcho msg" and "pubSeqOf msg = Some (JNum q)"
  shows "(lastPubSeq s = - 1 \<longrightarrow>
            validateMessageSeq (JArr msg) s = Some (None, s\<lparr>lastPubSeq := q\<rparr>))
       \<and> (lastPubSeq s \<noteq> - 1 \<and> q = lastPubSeq s + 1 \<longrightarrow>
            validateMessageSeq (JArr msg) s = Some (checkAuthSeq msg (s\<lparr>lastPubSeq := q\<rparr>))
          \<and> lastPubSeq (snd (checkAuthSeq msg (s\<lparr>lastPubSeq := q\<rparr>))) = q
          \<and> (\<forall>a b. fst (checkAuthSeq msg (s\<lparr>lastPubSeq := q\<rparr>)) \<noteq> Some (InvalidPubSeq a b))
          \<and> (\<not> onAuthChannel msg \<longrightarrow>
                checkAuthSeq msg (s\<lparr>lastPubSeq := q\<rparr>) = (None, s\<lparr>lastPubSeq := q\<rparr>)))
       \<and> (lastPubSeq s \<noteq> - 1 \<and> q \<noteq> lastPubSeq s + 1 \<longrightarrow>
            validateMessageSeq (JArr msg) s = Some (Some (InvalidPubSeq (lastPubSeq s) q), s))"
  using assms
  by (auto simp: validateMessageSeq_def checkAuthSeq_def authSeqOf_def split: jsval.splits)

text \<open>
  The claim as first stated promised no error at all for every packet whose public
  sequence number is the stored counter plus one. On the authenticated channel the
  second check can still report: with public counter 4 and authenticated counter 3, the
  packet \<^verbatim>\<open>[0, 'on', [], 5, 7]\<close> advances the public counter to 5 and returns the
  authenticated-sequence error.
\<close>

theorem pub_seq_audit_counterexample:
  "validateMessageSeq (JArr [JNum 0, JStr ''on'', JArr [], JNum 5, JNum 7])
     (newWSv2 (defaultOpts\<lparr>optSeqAudit := True\<rparr>)\<lparr>lastPubSeq := 4, lastAuthSeq := 3\<rparr>)
   = Some (Some (InvalidAuthSeq 3 7),
       newWSv2 (defaultOpts\<lparr>optSeqAudit := True\<rparr>)\<lparr>lastPubSeq := 5, lastAuthSeq := 3\<rparr>)"
  by (simp add: validateMessageSeq_def checkAuthSeq_def authSeqOf_def pubSeqOf_def onAuthChannel_def
      isReqEcho_def reqTag_def arr_at_def js_or_def slice_last4_def newWSv2_def defaultOpts_def)

theorem pub_seq_audit_witness:
  "seqAudit (newWSv2 (defaultOpts\<lparr>optSeqAudit := True\<rparr>))
   \<and> \<not> isReqEcho [JNum 12, JArr [JNum 1, JNum 2], JNum 8]
   \<and> pubSeqOf [JNum 12, JArr [JNum 1, JNum 2], JNum 8] = Some (JNum 8)
   \<and> validateMessageSeq (JArr [JNum 12, JArr [JNum 1, JNum 2], JNum 8])
        (newWSv2 (defaultOpts\<lparr>optSeqAudit := True\<rparr>))
      = Some (None, newWSv2 (defaultOpts\<lparr>optSeqAudit := True\<rparr>)\<lparr>lastPubSeq := 8\<rparr>)
   \<and> validateMessageSeq (JArr [JNum 12, JArr [JNum 1, JNum 2], JNum 8])
        (newWSv2 (defaultOpts\<lparr>optSeqAudit := True\<rparr>)\<lparr>lastPubSeq := 7\<rparr>)
      = Some (None, newWSv2 (defaultOpts\<lparr>optSeqAudit := True\<rparr>)\<lparr>lastPubSeq := 8\<rparr>)
   \<and> validateMessageSeq (JArr [JNum 12, JArr [JNum 1, JNum 2], JNum 8])
        (newWSv2 (defaultOpts\<lparr>optSeqAudit := True\<rparr>)\<lparr>lastPubSeq := 5\<rparr>)
      = Some (Some (InvalidPubSeq 5 8), newWSv2 (defaultOpts\<lparr>optSeqAudit := True\<rparr>)\<lparr>lastPubSeq := 5\<rparr>)"
proof -
  let ?m = "[JNum 12, JArr [JNum 1, JNum 2], JNum 8]"
  let ?s = "newWSv2 (defaultOpts\<lparr>optSeqAudit := True\<rparr>)"
  have a: "seqAudit ?s" "seqAudit (?s\<lparr>lastPubSeq := 7\<rparr>)" "seqAudit (?s\<lparr>lastPubSeq := 5\<rparr>)"
    by (simp_all add: newWSv2_def defaultOpts_def)
  have u: "lastPubSeq ?s = - 1" by (simp add: newWSv2_def)
  have n: "?m \<noteq> []" by simp
  have r: "\<not> isReqEcho ?m"
    by (simp add: isReqEcho_def reqTag_def arr_at_def js_or_def slice_last4_def
        dec_of_int_def dec_of_nat.simps digit_char_def)
  have p: "pubSeqOf ?m = Some (JNum 8)"
    by (simp add: pubSeqOf_def onAuthChannel_def arr_at_def)
  have x: "\<not> onAuthChannel ?m" by (simp add: onAuthChannel_def arr_at_def)
  show ?thesis
    using pub_seq_audit [OF a(1) n r p] pub_seq_audit [OF a(2) n r p]
      pub_seq_audit [OF a(3) n r p] a u r p x
    by simp
qed

text \<open>
  Claim C2, as the code has it. The authenticated sequence number \<open>a\<close> of a
  non-heartbeat packet of the authenticated channel is only looked at when the packet
  gets past the public stage: it is a request echo, or its public sequence number is the
  stored, already seeded public counter plus one. Then, with \<open>s1\<close> the state after the
  public stage: 0 is ignored; on a notification \<open>a\<close> must be the stored authenticated
  counter, anything else is an error; on any other packet a first value (counter unset,
  \<open>a\<close> not the unset marker itself) and a value equal to the counter plus one are
  accepted and stored, and any other value is an error that leaves the counter alone.
\<close>

theorem auth_seq_audit:
  assumes "seqAudit s" and "msg \<noteq> []" and "onAuthChannel msg"
    and "arr_at msg (int (length msg) - 1) = JNum a"
    and "isReqEcho msg \<or> (lastPubSeq s \<noteq> - 1 \<and> pubSeqOf msg = Some (JNum (lastPubSeq s + 1)))"
  shows "let s1 = (if isReqEcho msg then s else s\<lparr>lastPubSeq := lastPubSeq s + 1\<rparr>);
             r = validateMessageSeq (JArr msg) s;
             notification = js_strict_eq (arr_at msg 1) (JStr ''n'')
         in (a = 0 \<longrightarrow> r = Some (None, s1))
          \<and> (a \<noteq> 0 \<and> notification \<and> a = lastAuthSeq s \<longrightarrow> r = Some (None, s1))
          \<and> (a \<noteq> 0 \<and> notification \<and> a \<noteq> lastAuthSeq s \<longrightarrow>
                r = Some (Some (AuthSeqNoAdvancement a), s1))
          \<and> (a \<noteq> 0 \<and> \<not> notification \<and> lastAuthSeq s = - 1 \<and> a \<noteq> - 1 \<longrightarrow>
                r = Some (None, s1\<lparr>lastAuthSeq := a\<rparr>))
          \<and> (a \<noteq> 0 \<and> \<not> notification \<and> a = lastAuthSeq s + 1 \<longrightarrow>
                r = Some (None, s1\<lparr>lastAuthSeq := a\<rparr>))
          \<and> (a \<noteq> 0 \<and> \<not> notification \<and> lastAuthSeq s \<noteq> - 1 \<and> a \<noteq> lastAuthSeq s + 1 \<longrightarrow>
                r = Some (Some (if a = lastAuthSeq s then AuthSeqSame a
                                else InvalidAuthSeq (lastAuthSeq s) a), s1))"
  using assms
  by (auto simp: validateMessageSeq_def checkAuthSeq_def authSeqOf_def Let_def split: jsval.splits)

text \<open>
  As first stated, the claim let every authenticated-channel packet reach this check. A
  packet that fails the public check never does: with public counter 4 and
  authenticated counter 7, the packet \<^verbatim>\<open>[0, 'on', [], 9, 8]\<close> carries the expected
  authenticated value 8, yet an error is returned and the authenticated counter stays 7.
\<close>

theorem auth_seq_audit_counterexample:
  "validateMessageSeq (JArr [JNum 0, JStr ''on'', JArr [], JNum 9, JNum 8])
     (newWSv2 (defaultOpts\<lparr>optSeqAudit := True\<rparr>)\<lparr>lastPubSeq := 4, lastAuthSeq := 7\<rparr>)
   = Some (Some (InvalidPubSeq 4 9),
       newWSv2 (defaultOpts\<lparr>optSeqAudit := True\<rparr>)\<lparr>lastPubSeq := 4, lastAuthSeq := 7\<rparr>)"
  by (simp add: validateMessageSeq_def checkAuthSeq_def authSeqOf_def pubSeqOf_def onAuthChannel_def
      isReqEcho_def reqTag_def arr_at_def js_or_def slice_last4_def newWSv2_def defaultOpts_def)

theorem auth_seq_audit_witness:
  "seqAudit (newWSv2 (defaultOpts\<lparr>optSeqAudit := True\<rparr>)\<lparr>lastPubSeq := 4, lastAuthSeq := 7\<rparr>)
   \<and> onAuthChannel [JNum 0, JStr ''on'', JArr [], JNum 5, JNum 8]
   \<and> \<not> isReqEcho [JNum 0, JStr ''on'', JArr [], JNum 5, JNum 8]
   \<and> pubSeqOf [JNum 0, JStr ''on'', JArr [], JNum 5, JNum 8] = Some (JNum 5)
   \<and> validateMessageSeq (JArr [JNum 0, JStr ''on'', JArr [], JNum 5, JNum 8])
        (newWSv2 (defaultOpts\<lparr>optSeqAudit := True\<rparr>)\<lparr>lastPubSeq := 4, lastAuthSeq := 7\<rparr>)
      = Some (None, newWSv2 (defaultOpts\<lparr>optSeqAudit := True\<rparr>)\<lparr>lastPubSeq := 5, lastAuthSeq := 8\<rparr>)
   \<and> validateMessageSeq (JArr [JNum 0, JStr ''on'', JArr [], JNum 5, JNum 8])
        (newWSv2 (defaultOpts\<lparr>optSeqAudit := True\<rparr>)\<lparr>lastPubSeq := 4\<rparr>)
      = Some (None, newWSv2 (defaultOpts\<lparr>optSeqAudit := True\<rparr>)\<lparr>lastPubSeq := 5, lastAuthSeq := 8\<rparr>)
   \<and> validateMessageSeq (JArr [JNum 0, JStr ''on'', JArr [], JNum 5, JNum 8])
        (newWSv2 (defaultOpts\<lparr>optSeqAudit := True\<rparr>)\<lparr>lastPubSeq := 4, lastAuthSeq := 5\<rparr>)
      = Some (Some (InvalidAuthSeq 5 8),
          newWSv2 (defaultOpts\<lparr>optSeqAudit := True\<rparr>)\<lparr>lastPubSeq := 5, lastAuthSeq := 5\<rparr>)
   \<and> validateMessageSeq (JArr [JNum 0, JStr ''ws'', JArr [], JNum 5, JNum 0])
        (newWSv2 (defaultOpts\<lparr>optSeqAudit := True\<rparr>)\<lparr>lastPubSeq := 4, lastAuthSeq := 7\<rparr>)
      = Some (None, newWSv2 (defaultOpts\<lparr>optSeqAudit := True\<rparr>)\<lparr>lastPubSeq := 5, lastAuthSeq := 7\<rparr>)
   \<and> isReqEcho [JNum 0, JStr ''n'', JArr [JNum 1, JStr ''on-req''], JNum 7]
   \<and> validateMessageSeq (JArr [JNum 0, JStr ''n'', JArr [JNum 1, JStr ''on-req''], JNum 7])
        (newWSv2 (defaultOpts\<lparr>optSeqAudit := True\<rparr>)\<lparr>lastPubSeq := 4, lastAuthSeq := 7\<rparr>)
      = Some (None, newWSv2 (defaultOpts\<lparr>optSeqAudit := True\<rparr>)\<lparr>lastPubSeq := 4, lastAuthSeq := 7\<rparr>)
   \<and> validateMessageSeq (JArr [JNum 0, JStr ''n'', JArr [JNum 1, JStr ''on-req''], JNum 8])
        (newWSv2 (defaultOpts\<lparr>optSeqAudit := True\<rparr>)\<lparr>lastPubSeq := 4, lastAuthSeq := 7\<rparr>)
      = Some (Some (AuthSeqNoAdvancement 8),
          newWSv2 (defaultOpts\<lparr>optSeqAudit := True\<rparr>)\<lparr>lastPubSeq := 4, lastAuthSeq := 7\<rparr>)"
proof -
  let ?m = "[JNum 0, JStr ''on'', JArr [], JNum 5, JNum 8]"
  let ?z = "[JNum 0, JStr ''ws'', JArr [], JNum 5, JNum 0]"
  let ?n7 = "[JNum 0, JStr ''n'', JArr [JNum 1, JStr ''on-req''], JNum 7]"
  let ?n8 = "[JNum 0, JStr ''n'', JArr [JNum 1, JStr ''on-req''], JNum 8]"
  let ?o = "newWSv2 (defaultOpts\<lparr>optSeqAudit := True\<rparr>)"
  let ?s = "?o\<lparr>lastPubSeq := 4, lastAuthSeq := 7\<rparr>"
  let ?u = "?o\<lparr>lastPubSeq := 4\<rparr>"
  let ?e = "?o\<lparr>lastPubSeq := 4, lastAuthSeq := 5\<rparr>"
  have a: "seqAudit ?s" "seqAudit ?u" "seqAudit ?e" by (simp_all add: newWSv2_def defaultOpts_def)
  have au: "lastAuthSeq ?u = - 1" by (simp add: newWSv2_def)
  have n: "?m \<noteq> []" "?z \<noteq> []" "?n7 \<noteq> []" "?n8 \<noteq> []" by simp_all
  have c: "onAuthChannel ?m" "onAuthChannel ?z" "onAuthChannel ?n7" "onAuthChannel ?n8"
    by (simp_all add: onAuthChannel_def arr_at_def)
  have l: "arr_at ?m (int (length ?m) - 1) = JNum 8" "arr_at ?z (int (length ?z) - 1) = JNum 0"
    "arr_at ?n7 (int (length ?n7) - 1) = JNum 7" "arr_at ?n8 (int (length ?n8) - 1) = JNum 8"
    by (simp_all add: arr_at_def)
  have r: "\<not> isReqEcho ?m" "\<not> isReqEcho ?z" "isReqEcho ?n7" "isReqEcho ?n8"
    by (simp_all add: isReqEcho_def reqTag_def arr_at_def js_or_def slice_last4_def)
  have p: "pubSeqOf ?m = Some (JNum 5)" "pubSeqOf ?z = Some (JNum 5)"
    by (simp_all add: pubSeqOf_def onAuthChannel_def arr_at_def)
  have q: "isReqEcho ?m \<or> (lastPubSeq ?s \<noteq> - 1 \<and> pubSeqOf ?m = Some (JNum (lastPubSeq ?s + 1)))"
    "isReqEcho ?m \<or> (lastPubSeq ?u \<noteq> - 1 \<and> pubSeqOf ?m = Some (JNum (lastPubSeq ?u + 1)))"
    "isReqEcho ?m \<or> (lastPubSeq ?e \<noteq> - 1 \<and> pubSeqOf ?m = Some (JNum (lastPubSeq ?e + 1)))"
    "isReqEcho ?z \<or> (lastPubSeq ?s \<noteq> - 1 \<and> pubSeqOf ?z = Some (JNum (lastPubSeq ?s + 1)))"
    "isReqEcho ?n7 \<or> (lastPubSeq ?s \<noteq> - 1 \<and> pubSeqOf ?n7 = Some (JNum (lastPubSeq ?s + 1)))"
    "isReqEcho ?n8 \<or> (lastPubSeq ?s \<noteq> - 1 \<and> pubSeqOf ?n8 = Some (JNum (lastPubSeq ?s + 1)))"
    using p r by simp_all
  have nt: "\<not> js_strict_eq (arr_at ?m 1) (JStr ''n'')" "\<not> js_strict_eq (arr_at ?z 1) (JStr ''n'')"
    "js_strict_eq (arr_at ?n7 1) (JStr ''n'')" "js_strict_eq (arr_at ?n8 1) (JStr ''n'')"
    by (simp_all add: arr_at_def)
  have r1: "validateMessageSeq (JArr ?m) ?s = Some (None, ?o\<lparr>lastPubSeq := 5, lastAuthSeq := 8\<rparr>)"
    using auth_seq_audit [OF a(1) n(1) c(1) l(1) q(1)] r(1) nt(1) by (simp add: Let_def)
  have r2: "validateMessageSeq (JArr ?m) ?u = Some (None, ?o\<lparr>lastPubSeq := 5, lastAuthSeq := 8\<rparr>)"
    using auth_seq_audit [OF a(2) n(1) c(1) l(1) q(2)] r(1) nt(1) au by (simp add: Let_def)
  have r3: "validateMessageSeq (JArr ?m) ?e
      = Some (Some (InvalidAuthSeq 5 8), ?o\<lparr>lastPubSeq := 5, lastAuthSeq := 5\<rparr>)"
    using auth_seq_audit [OF a(3) n(1) c(1) l(1) q(3)] r(1) nt(1) by (simp add: Let_def)
  have r4: "validateMessageSeq (JArr ?z) ?s = Some (None, ?o\<lparr>lastPubSeq := 5, lastAuthSeq := 7\<rparr>)"
    using auth_seq_audit [OF a(1) n(2) c(2) l(2) q(4)] r(2) by (simp add: Let_def)
  have r5: "validateMessageSeq (JArr ?n7) ?s = Some (None, ?s)"
    using auth_seq_audit [OF a(1) n(3) c(3) l(3) q(5)] r(3) nt(3) by (simp add: Let_def)
  have r6: "validateMessageSeq (JArr ?n8) ?s = Some (Some (AuthSeqNoAdvancement 8), ?s)"
    using auth_seq_audit [OF a(1) n(4) c(4) l(4) q(6)] r(4) nt(4) by (simp add: Let_def)
  show ?thesis using a(1) c(1) r(1) p(1) r1 r2 r3 r4 r(3) r5 r6 by (intro conjI) assumption+
qed

section \<open>Properties of the connection lifecycle\<close>

lemma send_keeps [simp]:
  "isOpen (send m s) = isOpen s" "hasSocket (send m s) = hasSocket s"
  "isClosing (send m s) = isClosing s" "isAuthenticated (send m s) = isAuthenticated s"
  "authOnReconnect (send m s) = authOnReconnect s" "authArgs (send m s) = authArgs s"
  "enabledFlags (send m s) = enabledFlags s"
  by (simp_all add: send_def)

lemma managedSubscribe_keeps [simp]:
  "isOpen (snd (managedSubscribe c i p s)) = isOpen s"
  "hasSocket (snd (managedSubscribe c i p s)) = hasSocket s"
  "isClosing (snd (managedSubscribe c i p s)) = isClosing s"
  "isAuthenticated (snd (managedSubscribe c i p s)) = isAuthenticated s"
  "authOnReconnect (snd (managedSubscribe c i p s)) = authOnReconnect s"
  "authArgs (snd (managedSubscribe c i p s)) = authArgs s"
  "enabledFlags (snd (managedSubscribe c i p s)) = enabledFlags s"
  by (simp_all add: managedSubscribe_def subscribe_def Let_def split: option.splits)

lemma resubscribeChannel_keeps [simp]:
  "isOpen (resubscribeChannel ch s) = isOpen s"
  "hasSocket (resubscribeChannel ch s) = hasSocket s"
  "isClosing (resubscribeChannel ch s) = isClosing s"
  "isAuthenticated (resubscribeChannel ch s) = isAuthenticated s"
  "authOnReconnect (resubscribeChannel ch s) = authOnReconnect s"
  "authArgs (resubscribeChannel ch s) = authArgs s"
  "enabledFlags (resubscribeChannel ch s) = enabledFlags s"
  by (simp_all add: resubscribeChannel_def Let_def)

lemma resubscribePreviousChannels_keeps [simp]:
  "isOpen (resubscribePreviousChannels cm s) = isOpen s
   \<and> hasSocket (resubscribePreviousChannels cm s) = hasSocket s
   \<and> isClosing (resubscribePreviousChannels cm s) = isClosing s
   \<and> isAuthenticated (resubscribePreviousChannels cm s) = isAuthenticated s
   \<and> authOnReconnect (resubscribePreviousChannels cm s) = authOnReconnect s
   \<and> authArgs (resubscribePreviousChannels cm s) = authArgs s
   \<and> enabledFlags (resubscribePreviousChannels cm s) = enabledFlags s"
  by (induction cm s rule: resubscribePreviousChannels.induct) simp_all

lemma openEvent_keeps [simp]:
  "isOpen (openEvent s)" "hasSocket (openEvent s) = hasSocket s"
  "isClosing (openEvent s) = isClosing s" "isAuthenticated (openEvent s) = isAuthenticated s"
  "authOnReconnect (openEvent s) = authOnReconnect s" "authArgs (openEvent s) = authArgs s"
  by (simp_all add: openEvent_def onWSOpen_def sendEnabledFlags_def Let_def)

text \<open>
  Claim C10. Whatever the state, \<^verbatim>\<open>_authOnReconnect\<close> is true after \<^verbatim>\<open>auth()\<close>; when the
  call throws because the connection is not open, or is already authenticated, the
  state is the old one with the flag set. The flag then decides what a later reconnect
  does: after a failed \<^verbatim>\<open>auth()\<close> on a closed connection, \<^verbatim>\<open>reconnectAfterClose\<close>
  reopens and sends an authentication frame, where without that call (flag unset) it
  only reopens.
\<close>

theorem auth_marks_reconnect:
  "authOnReconnect (snd (auth genAuthSig authNonce calc dms s))
   \<and> (\<not> isOpen s \<longrightarrow>
        auth genAuthSig authNonce calc dms s = (Some NotOpen, s\<lparr>authOnReconnect := True\<rparr>))
   \<and> (isOpen s \<and> isAuthenticated s \<longrightarrow>
        auth genAuthSig authNonce calc dms s = (Some AlreadyAuthenticated, s\<lparr>authOnReconnect := True\<rparr>))
   \<and> (\<not> isOpen s \<and> \<not> hasSocket s \<and> \<not> isClosing s \<and> \<not> isAuthenticated s \<and> isReconnecting s \<longrightarrow>
        (\<exists>s1 s2. ws_open (snd (auth genAuthSig authNonce calc dms s)) = Inr s1
           \<and> reconnectAfterClose genAuthSig nonce2 (snd (auth genAuthSig authNonce calc dms s)) = Some (None, s2)
           \<and> sent s2 = sent (openEvent s1) @ [authMsg genAuthSig nonce2 JUndefined JUndefined (openEvent s1)])
        \<and> (\<not> authOnReconnect s \<longrightarrow>
             (\<exists>s0. ws_open s = Inr s0 \<and> reconnectAfterClose genAuthSig nonce2 s = Some (None, openEvent s0))))"
  by (auto simp: auth_def reconnectAfterClose_def ws_open_def Let_def send_def authMsg_def)

theorem auth_marks_reconnect_witness:
  "\<not> isOpen (newWSv2 defaultOpts\<lparr>isReconnecting := True\<rparr>)
   \<and> \<not> authOnReconnect (newWSv2 defaultOpts\<lparr>isReconnecting := True\<rparr>)
   \<and> auth (\<lambda>secret payload. ''sig'') ''1'' JUndefined JUndefined (newWSv2 defaultOpts\<lparr>isReconnecting := True\<rparr>)
       = (Some NotOpen, newWSv2 defaultOpts\<lparr>isReconnecting := True, authOnReconnect := True\<rparr>)
   \<and> (\<exists>s1 s2. ws_open (snd (auth (\<lambda>secret payload. ''sig'') ''1'' JUndefined JUndefined
                    (newWSv2 defaultOpts\<lparr>isReconnecting := True\<rparr>))) = Inr s1
         \<and> reconnectAfterClose (\<lambda>secret payload. ''sig'') ''2''
              (snd (auth (\<lambda>secret payload. ''sig'') ''1'' JUndefined JUndefined
                    (newWSv2 defaultOpts\<lparr>isReconnecting := True\<rparr>))) = Some (None, s2)
         \<and> sent s2 = sent (openEvent s1) @
              [authMsg (\<lambda>secret payload. ''sig'') ''2'' JUndefined JUndefined (openEvent s1)])
   \<and> auth (\<lambda>secret payload. ''sig'') ''1'' JUndefined JUndefined
        (newWSv2 defaultOpts\<lparr>hasSocket := True, isOpen := True, isAuthenticated := True\<rparr>)
       = (Some AlreadyAuthenticated,
          newWSv2 defaultOpts\<lparr>hasSocket := True, isOpen := True, isAuthenticated := True,
                                authOnReconnect := True\<rparr>)"
proof -
  let ?s = "newWSv2 defaultOpts\<lparr>isReconnecting := True\<rparr>"
  let ?t = "newWSv2 defaultOpts\<lparr>hasSocket := True, isOpen := True, isAuthenticated := True\<rparr>"
  have c: "auth (\<lambda>secret payload. ''sig'') ''1'' JUndefined JUndefined ?t
             = (Some AlreadyAuthenticated, ?t\<lparr>authOnReconnect := True\<rparr>)"
  proof -
    have "isOpen ?t \<and> isAuthenticated ?t" by simp
    with auth_marks_reconnect [of "\<lambda>secret payload. ''sig''" "''1''" JUndefined JUndefined ?t "''2''"]
    show ?thesis by blast
  qed
  have h: "\<not> isOpen ?s" "\<not> hasSocket ?s" "\<not> isClosing ?s" "\<not> isAuthenticated ?s"
    "isReconnecting ?s" "\<not> authOnReconnect ?s"
    by (simp_all add: newWSv2_def)
  note t = auth_marks_reconnect [of "\<lambda>secret payload. ''sig''" "''1''" JUndefined JUndefined ?s "''2''"]
  have a: "auth (\<lambda>secret payload. ''sig'') ''1'' JUndefined JUndefined ?s
             = (Some NotOpen, ?s\<lparr>authOnReconnect := True\<rparr>)"
    using t h(1) by blast
  have b: "\<exists>s1 s2. ws_open (snd (auth (\<lambda>secret payload. ''sig'') ''1'' JUndefined JUndefined ?s)) = Inr s1
         \<and> reconnectAfterClose (\<lambda>secret payload. ''sig'') ''2''
              (snd (auth (\<lambda>secret payload. ''sig'') ''1'' JUndefined JUndefined ?s)) = Some (None, s2)
         \<and> sent s2 = sent (openEvent s1) @
              [authMsg (\<lambda>secret payload. ''sig'') ''2'' JUndefined JUndefined (openEvent s1)]"
    using t h by blast
  show ?thesis using h(1) h(6) a b c by (intro conjI) assumption+
qed

text \<open>
  What \<^verbatim>\<open>open()\<close> does reset. It succeeds exactly from a state without connection and
  socket, and then empties the subscription reference counts, the numeric order books
  and the candle sets. The channel map is empty in a new instance and after the close
  handler, which keeps it as the previous channel map when a reconnect is pending, so it
  is empty whenever \<^verbatim>\<open>open()\<close> can proceed.
\<close>

lemma open_resets_stores:
  "(\<not> isOpen s \<and> \<not> hasSocket s \<longrightarrow>
      (\<exists>s'. ws_open s = Inr s'
           \<and> subscriptionRefs s' = Map.empty \<and> orderBooks s' = Map.empty \<and> candles s' = Map.empty
           \<and> channelMap s' = channelMap s \<and> prevChannelMap s' = prevChannelMap s))
   \<and> channelMap (newWSv2 opts) = [] \<and> \<not> isOpen (newWSv2 opts) \<and> \<not> hasSocket (newWSv2 opts)
   \<and> channelMap (onWSClose t) = [] \<and> \<not> isOpen (onWSClose t) \<and> \<not> hasSocket (onWSClose t)
   \<and> prevChannelMap (onWSClose t) =
        (if isReconnecting t \<or> (autoReconnect t \<and> \<not> isClosing t) then channelMap t else prevChannelMap t)"
  by (simp add: ws_open_def newWSv2_def onWSClose_def Let_def)

text \<open>
  Claim C5 says that at the start of every \<^verbatim>\<open>open()\<close> cycle the channel map, the
  subscription reference counts and all managed stores, the lossless order books among
  them, are empty. The code misses the lossless books: \<^verbatim>\<open>open()\<close> assigns \<^verbatim>\<open>{}\<close> to
  \<^verbatim>\<open>_orderBooks\<close> and not to \<^verbatim>\<open>_losslessOrderBooks\<close>. On an instance that manages order
  books: open, the open event, the confirmation of a book subscription under id 17, and a
  book snapshot fill both book stores; after the close handler and the next \<^verbatim>\<open>open()\<close>
  the reference counts, the channel map and the numeric book are gone and the lossless
  book is still stored.
\<close>

theorem open_keeps_lossless_books:
  "(case ws_open (newWSv2 (defaultOpts\<lparr>optManageOrderBooks := True\<rparr>)) of
      Inl e \<Rightarrow> False
    | Inr s1 \<Rightarrow>
        (case updateManagedOB (\<lambda>ob u raw. ob) ''tBTCUSD'' (JArr [JArr [JNum 100, JNum 1, JNum 2]]) False
                (JArr [JNum 17, JArr [JArr [JStr ''100'', JStr ''1'', JStr ''2'']]])
                (handleSubscribedEvent 17
                   (JObj [(''event'', JStr ''subscribed''), (''channel'', JStr ''book''),
                          (''chanId'', JNum 17), (''symbol'', JStr ''tBTCUSD'')])
                   (snd (managedSubscribe ''book'' ''tBTCUSD'' [(''symbol'', JStr ''tBTCUSD'')]
                           (openEvent s1)))) of
           None \<Rightarrow> False
         | Some (err, s2) \<Rightarrow>
             err = None
             \<and> subscriptionRefs s2 ''book:tBTCUSD'' = Some 1
             \<and> channelMap s2 \<noteq> []
             \<and> orderBooks s2 ''tBTCUSD'' = Some (JArr [JArr [JNum 100, JNum 1, JNum 2]])
             \<and> losslessOrderBooks s2 ''tBTCUSD'' = Some (JArr [JArr [JStr ''100'', JStr ''1'', JStr ''2'']])
             \<and> (case ws_open (onWSClose s2) of
                   Inl e \<Rightarrow> False
                 | Inr s3 \<Rightarrow>
                     subscriptionRefs s3 ''book:tBTCUSD'' = None
                     \<and> channelMap s3 = []
                     \<and> orderBooks s3 ''tBTCUSD'' = None
                     \<and> losslessOrderBooks s3 ''tBTCUSD''
                          = Some (JArr [JArr [JStr ''100'', JStr ''1'', JStr ''2'']]))))"
  by (simp add: updateManagedOB_def js_get_def arr_at_def ws_open_def onWSClose_def openEvent_def
      onWSOpen_def handleSubscribedEvent_def managedSubscribe_def subscribe_def send_def refKey_def
      newWSv2_def defaultOpts_def Let_def)

section \<open>Properties of the managed candles\<close>

lemma replaceCandle_no_match:
  "\<forall>c \<in> set cs. \<not> js_nullish c \<and> \<not> js_strict_eq d0 (js_idx c 0)
   \<Longrightarrow> replaceCandle d0 data cs = Some (cs, False)"
  by (induction cs) (simp_all add: js_get_def)

lemma replaceCandle_first_match:
  "i < length cs \<Longrightarrow> \<forall>j \<le> i. \<not> js_nullish (cs ! j) \<Longrightarrow> js_strict_eq d0 (js_idx (cs ! i) 0)
   \<Longrightarrow> \<forall>j < i. \<not> js_strict_eq d0 (js_idx (cs ! j) 0)
   \<Longrightarrow> replaceCandle d0 data cs = Some (cs[i := data], True)"
proof (induction cs arbitrary: i)
  case Nil
  then show ?case by simp
next
  case (Cons c cs)
  show ?case
  proof (cases i)
    case 0
    with Cons.prems show ?thesis by (simp add: js_get_def)
  next
    case (Suc k)
    have c0: "\<not> js_nullish c" "\<not> js_strict_eq d0 (js_idx c 0)"
      using Cons.prems(2,4) Suc by auto
    have "replaceCandle d0 data cs = Some (cs[k := data], True)"
    proof (rule Cons.IH)
      show "k < length cs" using Cons.prems(1) Suc by simp
      show "\<forall>j\<le>k. \<not> js_nullish (cs ! j)" using Cons.prems(2) Suc by auto
      show "js_strict_eq d0 (js_idx (cs ! k) 0)" using Cons.prems(3) Suc by simp
      show "\<forall>j<k. \<not> js_strict_eq d0 (js_idx (cs ! j) 0)" using Cons.prems(4) Suc by auto
    qed
    with c0 Suc show ?thesis by (simp add: js_get_def)
  qed
qed

text \<open>
  Claim C8. For a single-candle update (element 0 of the data is not an array) on a store
  whose candles are arrays: without a set under the key the error is returned and the
  state, with no set created, is unchanged; when some stored candle has the same open
  time, the first such candle is overwritten in place and the length stays; when none
  has, the update is put in front of the untouched list and the length grows by one.
\<close>

theorem candle_update:
  assumes "js_get data 0 = Some d0" and "\<not> js_is_array d0"
  shows "(candles s key = None \<longrightarrow>
            updateManagedCandles key data s = Some (Some (UnknownCandles key), s))
       \<and> (\<forall>cs. candles s key = Some cs \<and> (\<forall>c \<in> set cs. \<not> js_nullish c) \<longrightarrow>
            (\<forall>i. i < length cs \<and> js_strict_eq d0 (js_idx (cs ! i) 0)
                  \<and> (\<forall>j < i. \<not> js_strict_eq d0 (js_idx (cs ! j) 0)) \<longrightarrow>
                updateManagedCandles key data s = Some (None, s\<lparr>candles := (candles s)(key \<mapsto> cs[i := data])\<rparr>)
                \<and> length (cs[i := data]) = length cs)
          \<and> ((\<forall>c \<in> set cs. \<not> js_strict_eq d0 (js_idx c 0)) \<longrightarrow>
                updateManagedCandles key data s = Some (None, s\<lparr>candles := (candles s)(key \<mapsto> data # cs)\<rparr>)
                \<and> length (data # cs) = length cs + 1))"
proof (intro conjI impI allI)
  assume "candles s key = None"
  with assms show "updateManagedCandles key data s = Some (Some (UnknownCandles key), s)"
    by (simp add: updateManagedCandles_def)
next
  fix cs i
  assume a: "candles s key = Some cs \<and> (\<forall>c \<in> set cs. \<not> js_nullish c)"
    and b: "i < length cs \<and> js_strict_eq d0 (js_idx (cs ! i) 0)
              \<and> (\<forall>j < i. \<not> js_strict_eq d0 (js_idx (cs ! j) 0))"
  have "\<forall>j \<le> i. \<not> js_nullish (cs ! j)" using a b by auto
  then have "replaceCandle d0 data cs = Some (cs[i := data], True)"
    using b by (intro replaceCandle_first_match) auto
  with assms a show "updateManagedCandles key data s = Some (None, s\<lparr>candles := (candles s)(key \<mapsto> cs[i := data])\<rparr>)"
    by (simp add: updateManagedCandles_def)
  show "length (cs[i := data]) = length cs" by simp
next
  fix cs
  assume a: "candles s key = Some cs \<and> (\<forall>c \<in> set cs. \<not> js_nullish c)"
    and b: "\<forall>c \<in> set cs. \<not> js_strict_eq d0 (js_idx c 0)"
  have "replaceCandle d0 data cs = Some (cs, False)"
    using a b by (intro replaceCandle_no_match) auto
  with assms a show "updateManagedCandles key data s = Some (None, s\<lparr>candles := (candles s)(key \<mapsto> data # cs)\<rparr>)"
    by (simp add: updateManagedCandles_def)
  show "length (data # cs) = length cs + 1" by simp
qed

theorem candle_update_witness:
  "js_get (JArr [JNum 200, JNum 7]) 0 = Some (JNum 200) \<and> \<not> js_is_array (JNum 200)
   \<and> updateManagedCandles ''trade:1m:tBTCUSD'' (JArr [JNum 200, JNum 7])
        (newWSv2 defaultOpts\<lparr>candles := [''trade:1m:tBTCUSD'' \<mapsto>
            [JArr [JNum 300, JNum 1], JArr [JNum 200, JNum 2], JArr [JNum 100, JNum 3]]]\<rparr>)
      = Some (None, newWSv2 defaultOpts\<lparr>candles := [''trade:1m:tBTCUSD'' \<mapsto>
            [JArr [JNum 300, JNum 1], JArr [JNum 200, JNum 7], JArr [JNum 100, JNum 3]]]\<rparr>)
   \<and> updateManagedCandles ''trade:1m:tBTCUSD'' (JArr [JNum 200, JNum 7])
        (newWSv2 defaultOpts\<lparr>candles := [''trade:1m:tBTCUSD'' \<mapsto>
            [JArr [JNum 300, JNum 1], JArr [JNum 100, JNum 3]]]\<rparr>)
      = Some (None, newWSv2 defaultOpts\<lparr>candles := [''trade:1m:tBTCUSD'' \<mapsto>
            [JArr [JNum 200, JNum 7], JArr [JNum 300, JNum 1], JArr [JNum 100, JNum 3]]]\<rparr>)
   \<and> updateManagedCandles ''trade:1m:tBTCUSD'' (JArr [JNum 200, JNum 7]) (newWSv2 defaultOpts)
      = Some (Some (UnknownCandles ''trade:1m:tBTCUSD''), newWSv2 defaultOpts)"
proof -
  let ?d = "JArr [JNum 200, JNum 7]"
  let ?k = "''trade:1m:tBTCUSD''"
  let ?cs1 = "[JArr [JNum 300, JNum 1], JArr [JNum 200, JNum 2], JArr [JNum 100, JNum 3]]"
  let ?cs2 = "[JArr [JNum 300, JNum 1], JArr [JNum 100, JNum 3]]"
  let ?s1 = "newWSv2 defaultOpts\<lparr>candles := [?k \<mapsto> ?cs1]\<rparr>"
  let ?s2 = "newWSv2 defaultOpts\<lparr>candles := [?k \<mapsto> ?cs2]\<rparr>"
  have g: "js_get ?d 0 = Some (JNum 200)" by (simp add: js_get_def arr_at_def)
  have n: "\<not> js_is_array (JNum 200)" by simp
  have r1: "updateManagedCandles ?k ?d ?s1 = Some (None, ?s1\<lparr>candles := (candles ?s1)(?k \<mapsto> ?cs1[1 := ?d])\<rparr>)"
  proof -
    have m: "(1::nat) < length ?cs1 \<and> js_strict_eq (JNum 200) (js_idx (?cs1 ! 1) 0)
               \<and> (\<forall>j < 1. \<not> js_strict_eq (JNum 200) (js_idx (?cs1 ! j) 0))"
      by (simp add: arr_at_def)
    have c: "candles ?s1 ?k = Some ?cs1 \<and> (\<forall>c \<in> set ?cs1. \<not> js_nullish c)" by simp
    from candle_update [OF g n, of ?s1 ?k] c m show ?thesis by blast
  qed
  have r2: "updateManagedCandles ?k ?d ?s2 = Some (None, ?s2\<lparr>candles := (candles ?s2)(?k \<mapsto> ?d # ?cs2)\<rparr>)"
  proof -
    have m: "\<forall>c \<in> set ?cs2. \<not> js_strict_eq (JNum 200) (js_idx c 0)"
      by (simp add: arr_at_def)
    have c: "candles ?s2 ?k = Some ?cs2 \<and> (\<forall>c \<in> set ?cs2. \<not> js_nullish c)" by simp
    from candle_update [OF g n, of ?s2 ?k] c m show ?thesis by blast
  qed
  have r3: "updateManagedCandles ?k ?d (newWSv2 defaultOpts) = Some (Some (UnknownCandles ?k), newWSv2 defaultOpts)"
  proof -
    have "candles (newWSv2 defaultOpts) ?k = None" by (simp add: newWSv2_def)
    with candle_update [OF g n, of "newWSv2 defaultOpts" ?k] show ?thesis by blast
  qed
  show ?thesis using g n r1 r2 r3 by simp
qed

section \<open>Properties of the order operation buffer\<close>

lemma concat_batchesOf15: "concat (batchesOf15 xs) = xs"
proof (induction xs rule: batchesOf15.induct)
  case (1 xs)
  show ?case
  proof (cases "xs = []")
    case True
    then show ?thesis by (simp add: batchesOf15.simps)
  next
    case False
    with 1 have "concat (batchesOf15 (drop 15 xs)) = drop 15 xs" by simp
    with False show ?thesis by (subst batchesOf15.simps) simp
  qed
qed

lemma ceil15_step: "0 < (n::nat) \<Longrightarrow> Suc ((n - 15 + 14) div 15) = (n + 14) div 15"
proof (cases "n \<le> 15")
  case True
  assume "0 < n"
  with True have "(n - 15 + 14) div 15 = 0" "(n + 14) div 15 = 1" by simp_all
  then show ?thesis by simp
next
  case False
  then have "n + 14 = (n - 15 + 14) + 15" by simp
  then have "(n + 14) div 15 = (n - 15 + 14) div 15 + 1" by (simp only: div_add_self2)
  then show ?thesis by simp
qed

lemma length_batchesOf15: "length (batchesOf15 xs) = (length xs + 14) div 15"
proof (induction xs rule: batchesOf15.induct)
  case (1 xs)
  show ?case
  proof (cases "xs = []")
    case True
    then show ?thesis by (simp add: batchesOf15.simps)
  next
    case False
    with 1 have ih: "length (batchesOf15 (drop 15 xs)) = (length xs - 15 + 14) div 15" by simp
    have eq: "batchesOf15 xs = take 15 xs # batchesOf15 (drop 15 xs)"
      using False by (subst batchesOf15.simps) simp
    have "length (batchesOf15 xs) = Suc ((length xs - 15 + 14) div 15)"
      by (simp only: eq ih list.size(4))
    also have "\<dots> = (length xs + 14) div 15"
      using False by (intro ceil15_step) simp
    finally show ?thesis .
  qed
qed

lemma batchesOf15_sizes: "b \<in> set (batchesOf15 xs) \<Longrightarrow> b \<noteq> [] \<and> length b \<le> 15"
proof (induction xs rule: batchesOf15.induct)
  case (1 xs)
  show ?case
  proof (cases "xs = []")
    case True
    with 1 show ?thesis by (simp add: batchesOf15.simps)
  next
    case False
    from "1.prems" False have "b = take 15 xs \<or> b \<in> set (batchesOf15 (drop 15 xs))"
      by (subst (asm) batchesOf15.simps) simp
    then show ?thesis
    proof
      assume "b = take 15 xs"
      with False show ?thesis by simp
    next
      assume "b \<in> set (batchesOf15 (drop 15 xs))"
      with 1 False show ?thesis by simp
    qed
  qed
qed

lemma batchesOf15_full: "Suc i < length (batchesOf15 xs) \<Longrightarrow> length (batchesOf15 xs ! i) = 15"
proof (induction xs arbitrary: i rule: batchesOf15.induct)
  case (1 xs)
  show ?case
  proof (cases "xs = []")
    case True
    with "1.prems" show ?thesis by (simp add: batchesOf15.simps)
  next
    case False
    have eq: "batchesOf15 xs = take 15 xs # batchesOf15 (drop 15 xs)"
      using False by (subst batchesOf15.simps) simp
    show ?thesis
    proof (cases i)
      case 0
      with "1.prems" eq have "batchesOf15 (drop 15 xs) \<noteq> []" by auto
      then have "drop 15 xs \<noteq> []" by (auto simp: batchesOf15.simps)
      then have "15 < length xs" by simp
      with eq 0 show ?thesis by simp
    next
      case (Suc k)
      with "1.prems" eq have "Suc k < length (batchesOf15 (drop 15 xs))" by simp
      with 1 False have "length (batchesOf15 (drop 15 xs) ! k) = 15" by simp
      with eq Suc show ?thesis by simp
    qed
  qed
qed

lemma submitOrderMultiOp_sends:
  "isAuthenticated s \<Longrightarrow> hasSocket s \<Longrightarrow> isOpen s \<Longrightarrow> \<not> isClosing s
   \<Longrightarrow> submitOrderMultiOp ops s = (None, s\<lparr>sent := sent s @ [multiOpMsg ops]\<rparr>)"
  by (simp add: submitOrderMultiOp_def send_def)

lemma flushLoop_batches:
  "isAuthenticated s \<Longrightarrow> hasSocket s \<Longrightarrow> isOpen s \<Longrightarrow> \<not> isClosing s
   \<Longrightarrow> flushLoop ps s = (replicate (length (batchesOf15 ps)) None,
                          s\<lparr>sent := sent s @ map multiOpMsg (batchesOf15 ps)\<rparr>)"
proof (induction ps arbitrary: s rule: batchesOf15.induct)
  case (1 xs)
  show ?case
  proof (cases "xs = []")
    case True
    then show ?thesis by (simp add: batchesOf15.simps flushLoop.simps)
  next
    case False
    let ?s1 = "s\<lparr>sent := sent s @ [multiOpMsg (take 15 xs)]\<rparr>"
    have t: "take (min (length xs) 15) xs = take 15 xs" "drop (min (length xs) 15) xs = drop 15 xs"
      by (simp_all add: min_def)
    have sub: "submitOrderMultiOp (take 15 xs) s = (None, ?s1)"
      using "1.prems" by (rule submitOrderMultiOp_sends)
    have ih: "flushLoop (drop 15 xs) ?s1 =
        (replicate (length (batchesOf15 (drop 15 xs))) None,
         ?s1\<lparr>sent := sent ?s1 @ map multiOpMsg (batchesOf15 (drop 15 xs))\<rparr>)"
      using "1.prems" False by (intro "1.IH") simp_all
    have eq: "batchesOf15 xs = take 15 xs # batchesOf15 (drop 15 xs)"
      using False by (subst batchesOf15.simps) simp
    have "flushLoop xs s =
        (let (r, s1) = submitOrderMultiOp (take 15 xs) s;
             (rs, s2) = flushLoop (drop 15 xs) s1
         in (r # rs, s2))"
      using False by (subst flushLoop.simps) (simp add: t Let_def)
    also have "\<dots> = (None # replicate (length (batchesOf15 (drop 15 xs))) None,
         ?s1\<lparr>sent := sent ?s1 @ map multiOpMsg (batchesOf15 (drop 15 xs))\<rparr>)"
      by (simp add: sub ih)
    also have "\<dots> = (replicate (length (batchesOf15 xs)) None,
                          s\<lparr>sent := sent s @ map multiOpMsg (batchesOf15 xs)\<rparr>)"
      by (simp add: eq)
    finally show ?thesis .
  qed
qed

lemma submitOrderMultiOp_frame [simp]:
  "isAuthenticated (snd (submitOrderMultiOp ops s)) = isAuthenticated s"
  "hasSocket (snd (submitOrderMultiOp ops s)) = hasSocket s"
  "isOpen (snd (submitOrderMultiOp ops s)) = isOpen s"
  "isClosing (snd (submitOrderMultiOp ops s)) = isClosing s"
  "orderOpBuffer (snd (submitOrderMultiOp ops s)) = orderOpBuffer s"
  "orderOpTimeout (snd (submitOrderMultiOp ops s)) = orderOpTimeout s"
  by (simp_all add: submitOrderMultiOp_def send_def)

lemma submitOrderMultiOp_blocked:
  "\<not> (isAuthenticated s \<and> hasSocket s \<and> isOpen s \<and> \<not> isClosing s)
   \<Longrightarrow> sent (snd (submitOrderMultiOp ops s)) = sent s"
  by (auto simp: submitOrderMultiOp_def send_def)

lemma flushLoop_blocked:
  "\<not> (isAuthenticated s \<and> hasSocket s \<and> isOpen s \<and> \<not> isClosing s)
   \<Longrightarrow> sent (snd (flushLoop ps s)) = sent s
       \<and> orderOpBuffer (snd (flushLoop ps s)) = orderOpBuffer s
       \<and> orderOpTimeout (snd (flushLoop ps s)) = orderOpTimeout s"
proof (induction ps arbitrary: s rule: batchesOf15.induct)
  case (1 xs)
  show ?case
  proof (cases "xs = []")
    case True
    then show ?thesis by (simp add: flushLoop.simps)
  next
    case False
    let ?s1 = "snd (submitOrderMultiOp (take 15 xs) s)"
    have t: "take (min (length xs) 15) xs = take 15 xs" "drop (min (length xs) 15) xs = drop 15 xs"
      by (simp_all add: min_def)
    have b1: "\<not> (isAuthenticated ?s1 \<and> hasSocket ?s1 \<and> isOpen ?s1 \<and> \<not> isClosing ?s1)"
      using "1.prems" by simp
    have ih: "sent (snd (flushLoop (drop 15 xs) ?s1)) = sent ?s1
       \<and> orderOpBuffer (snd (flushLoop (drop 15 xs) ?s1)) = orderOpBuffer ?s1
       \<and> orderOpTimeout (snd (flushLoop (drop 15 xs) ?s1)) = orderOpTimeout ?s1"
      using False b1 by (rule "1.IH")
    have "snd (flushLoop xs s) = snd (flushLoop (drop 15 xs) ?s1)"
      using False by (subst flushLoop.simps) (simp add: t Let_def split_beta)
    with ih "1.prems" show ?thesis by (simp add: submitOrderMultiOp_blocked)
  qed
qed

text \<open>
  Claim C4, as the code has it. A positive buffering delay given to the constructor
  enables the buffer; with the buffer enabled an order packet is appended to the queue,
  the flush timer is armed and nothing is sent. Flushing on a connection that is
  authenticated, open and not closing empties the queue, disarms the timer and sends the
  batches in order: their concatenation is the queue's operations, none is longer than
  15 and all but the last hold exactly 15; for \<open>k \<ge> 1\<close> queued operations there are
  \<open>\<lceil>k / 15\<rceil>\<close> batches, none of them empty, and an empty queue leaves as one batch
  without operations. In every other connection state the flush empties the queue and
  disarms the timer as well, and sends nothing.
\<close>

theorem order_op_batching:
  "(optOrderOpBufferDelay opts = Some d \<and> d > 0 \<longrightarrow> hasOrderBuff (newWSv2 opts))
   \<and> (hasOrderBuff s \<longrightarrow>
        orderOpBuffer (sendOrderPacket p s) = orderOpBuffer s @ [p]
        \<and> orderOpTimeout (sendOrderPacket p s)
        \<and> sent (sendOrderPacket p s) = sent s \<and> emitted (sendOrderPacket p s) = emitted s)
   \<and> (isAuthenticated s \<and> hasSocket s \<and> isOpen s \<and> \<not> isClosing s \<longrightarrow>
        (\<exists>batches.
           flushOrderOps s = (replicate (length batches) None,
               s\<lparr>orderOpTimeout := False, orderOpBuffer := [], sent := sent s @ map multiOpMsg batches\<rparr>)
           \<and> concat batches = map opOfPacket (orderOpBuffer s)
           \<and> (\<forall>b \<in> set batches. length b \<le> 15)
           \<and> (\<forall>i. Suc i < length batches \<longrightarrow> length (batches ! i) = 15)
           \<and> (orderOpBuffer s \<noteq> [] \<longrightarrow>
                length batches = (length (orderOpBuffer s) + 14) div 15
                \<and> (\<forall>b \<in> set batches. b \<noteq> []))
           \<and> (orderOpBuffer s = [] \<longrightarrow> batches = [[]])))
   \<and> (\<not> (isAuthenticated s \<and> hasSocket s \<and> isOpen s \<and> \<not> isClosing s) \<longrightarrow>
        orderOpBuffer (snd (flushOrderOps s)) = []
        \<and> \<not> orderOpTimeout (snd (flushOrderOps s))
        \<and> sent (snd (flushOrderOps s)) = sent s)"
proof -
  let ?ps = "map opOfPacket (orderOpBuffer s)"
  let ?s1 = "s\<lparr>orderOpTimeout := False, orderOpBuffer := []\<rparr>"
  have p1: "optOrderOpBufferDelay opts = Some d \<and> d > 0 \<longrightarrow> hasOrderBuff (newWSv2 opts)"
    by (simp add: hasOrderBuff_def newWSv2_def)
  have p2: "hasOrderBuff s \<longrightarrow>
        orderOpBuffer (sendOrderPacket p s) = orderOpBuffer s @ [p]
        \<and> orderOpTimeout (sendOrderPacket p s)
        \<and> sent (sendOrderPacket p s) = sent s \<and> emitted (sendOrderPacket p s) = emitted s"
    by (simp add: sendOrderPacket_def ensureOrderBuffTimeout_def Let_def)
  have p3: "\<exists>batches.
           flushOrderOps s = (replicate (length batches) None,
               s\<lparr>orderOpTimeout := False, orderOpBuffer := [], sent := sent s @ map multiOpMsg batches\<rparr>)
           \<and> concat batches = map opOfPacket (orderOpBuffer s)
           \<and> (\<forall>b \<in> set batches. length b \<le> 15)
           \<and> (\<forall>i. Suc i < length batches \<longrightarrow> length (batches ! i) = 15)
           \<and> (orderOpBuffer s \<noteq> [] \<longrightarrow>
                length batches = (length (orderOpBuffer s) + 14) div 15
                \<and> (\<forall>b \<in> set batches. b \<noteq> []))
           \<and> (orderOpBuffer s = [] \<longrightarrow> batches = [[]])"
    if a: "isAuthenticated s \<and> hasSocket s \<and> isOpen s \<and> \<not> isClosing s"
  proof (cases "orderOpBuffer s = []")
    case True
    have "submitOrderMultiOp [] ?s1 = (None, ?s1\<lparr>sent := sent ?s1 @ [multiOpMsg []]\<rparr>)"
      using a by (intro submitOrderMultiOp_sends) simp_all
    with True have fl: "flushOrderOps s = (replicate (length [[]::jsval list]) None,
               s\<lparr>orderOpTimeout := False, orderOpBuffer := [],
                 sent := sent s @ map multiOpMsg [[]]\<rparr>)"
      by (simp add: flushOrderOps_def Let_def)
    show ?thesis
    proof (intro exI conjI)
      show "flushOrderOps s = (replicate (length [[]::jsval list]) None,
               s\<lparr>orderOpTimeout := False, orderOpBuffer := [],
                 sent := sent s @ map multiOpMsg [[]]\<rparr>)"
        by (rule fl)
    qed (use True in simp_all)
  next
    case False
    then have ne: "?ps \<noteq> []" by simp
    have fl: "flushOrderOps s = (replicate (length (batchesOf15 ?ps)) None,
               s\<lparr>orderOpTimeout := False, orderOpBuffer := [],
                 sent := sent s @ map multiOpMsg (batchesOf15 ?ps)\<rparr>)"
    proof (cases "length ?ps \<le> 15")
      case True
      have "batchesOf15 ?ps = [?ps]"
        using ne True by (subst batchesOf15.simps) (simp add: batchesOf15.simps)
      moreover have "submitOrderMultiOp ?ps ?s1 = (None, ?s1\<lparr>sent := sent ?s1 @ [multiOpMsg ?ps]\<rparr>)"
        using a by (intro submitOrderMultiOp_sends) simp_all
      ultimately show ?thesis using True by (simp add: flushOrderOps_def Let_def)
    next
      case False
      have "flushLoop ?ps ?s1 = (replicate (length (batchesOf15 ?ps)) None,
              ?s1\<lparr>sent := sent ?s1 @ map multiOpMsg (batchesOf15 ?ps)\<rparr>)"
        using a by (intro flushLoop_batches) simp_all
      then show ?thesis using False by (simp add: flushOrderOps_def Let_def)
    qed
    show ?thesis
    proof (intro exI conjI)
      show "flushOrderOps s = (replicate (length (batchesOf15 ?ps)) None,
               s\<lparr>orderOpTimeout := False, orderOpBuffer := [],
                 sent := sent s @ map multiOpMsg (batchesOf15 ?ps)\<rparr>)"
        by (rule fl)
      show "concat (batchesOf15 ?ps) = ?ps" by (rule concat_batchesOf15)
      show "\<forall>b \<in> set (batchesOf15 ?ps). length b \<le> 15" using batchesOf15_sizes by blast
      show "\<forall>i. Suc i < length (batchesOf15 ?ps) \<longrightarrow> length (batchesOf15 ?ps ! i) = 15"
        using batchesOf15_full by blast
      show "orderOpBuffer s \<noteq> [] \<longrightarrow>
                length (batchesOf15 ?ps) = (length (orderOpBuffer s) + 14) div 15
                \<and> (\<forall>b \<in> set (batchesOf15 ?ps). b \<noteq> [])"
        using batchesOf15_sizes by (auto simp: length_batchesOf15)
      show "orderOpBuffer s = [] \<longrightarrow> batchesOf15 ?ps = [[]]" using False by simp
    qed
  qed
  have p4: "orderOpBuffer (snd (flushOrderOps s)) = []
        \<and> \<not> orderOpTimeout (snd (flushOrderOps s))
        \<and> sent (snd (flushOrderOps s)) = sent s"
    if b: "\<not> (isAuthenticated s \<and> hasSocket s \<and> isOpen s \<and> \<not> isClosing s)"
  proof -
    have b1: "\<not> (isAuthenticated ?s1 \<and> hasSocket ?s1 \<and> isOpen ?s1 \<and> \<not> isClosing ?s1)"
      using b by simp
    show ?thesis
    proof (cases "length ?ps \<le> 15")
      case True
      then have "snd (flushOrderOps s) = snd (submitOrderMultiOp ?ps ?s1)"
        by (simp add: flushOrderOps_def Let_def split_beta)
      then show ?thesis using submitOrderMultiOp_blocked [OF b1] by simp
    next
      case False
      then have "snd (flushOrderOps s) = snd (flushLoop ?ps ?s1)"
        by (simp add: flushOrderOps_def Let_def)
      then show ?thesis using flushLoop_blocked [OF b1, of ?ps] by simp
    qed
  qed
  show ?thesis using p1 p2 p3 p4 by blast
qed

text \<open>
  The claim as first stated enabled the buffer for every non-negative delay, let every
  flush produce messages, and counted \<open>\<lceil>k / 15\<rceil>\<close> of them for every queue. Against that:
  a delay of 0 is turned into \<open>-1\<close> by the constructor, the buffer stays off and the order
  packet goes straight to the socket; after \<^verbatim>\<open>close()\<close> the connection is still open and
  authenticated, and the pending flush drops the queued packet with the error that the
  connection is closing; after the close handler the flush is rejected as not
  authenticated and drops the queue too; and an empty queue is flushed as one message
  that carries no operation.
\<close>

theorem order_op_batching_counterexample:
  "sendOrderPacket (JArr [JNum 0, JStr ''oc'', JNull, JObj [(''id'', JNum 7)]])
     (newWSv2 (defaultOpts\<lparr>optOrderOpBufferDelay := Some 0\<rparr>)
        \<lparr>hasSocket := True, isOpen := True, isAuthenticated := True\<rparr>)
   = newWSv2 (defaultOpts\<lparr>optOrderOpBufferDelay := Some 0\<rparr>)
        \<lparr>hasSocket := True, isOpen := True, isAuthenticated := True,
         sent := [JArr [JNum 0, JStr ''oc'', JNull, JObj [(''id'', JNum 7)]]]\<rparr>
   \<and> orderOpBuffer (sendOrderPacket (JArr [JNum 0, JStr ''oc'', JNull, JObj [(''id'', JNum 7)]])
        (newWSv2 (defaultOpts\<lparr>optOrderOpBufferDelay := Some 0\<rparr>)
           \<lparr>hasSocket := True, isOpen := True, isAuthenticated := True\<rparr>)) = []
   \<and> (case ws_close (sendOrderPacket (JArr [JNum 0, JStr ''oc'', JNull, JObj [(''id'', JNum 7)]])
          (newWSv2 (defaultOpts\<lparr>optOrderOpBufferDelay := Some 50\<rparr>)
             \<lparr>hasSocket := True, isOpen := True, isAuthenticated := True\<rparr>)) of
         Inl e \<Rightarrow> False
       | Inr c \<Rightarrow>
           isOpen c \<and> isAuthenticated c
           \<and> orderOpBuffer c = [JArr [JNum 0, JStr ''oc'', JNull, JObj [(''id'', JNum 7)]]]
           \<and> fst (flushOrderOps c) = [None]
           \<and> sent (snd (flushOrderOps c)) = []
           \<and> orderOpBuffer (snd (flushOrderOps c)) = []
           \<and> emitted (snd (flushOrderOps c)) = [EmitError CurrentlyClosing])
   \<and> fst (flushOrderOps (onWSClose
        (sendOrderPacket (JArr [JNum 0, JStr ''oc'', JNull, JObj [(''id'', JNum 7)]])
          (newWSv2 (defaultOpts\<lparr>optOrderOpBufferDelay := Some 50\<rparr>)
             \<lparr>hasSocket := True, isOpen := True, isAuthenticated := True\<rparr>)))) = [Some NotAuthenticated]
   \<and> sent (snd (flushOrderOps (onWSClose
        (sendOrderPacket (JArr [JNum 0, JStr ''oc'', JNull, JObj [(''id'', JNum 7)]])
          (newWSv2 (defaultOpts\<lparr>optOrderOpBufferDelay := Some 50\<rparr>)
             \<lparr>hasSocket := True, isOpen := True, isAuthenticated := True\<rparr>))))) = []
   \<and> orderOpBuffer (snd (flushOrderOps (onWSClose
        (sendOrderPacket (JArr [JNum 0, JStr ''oc'', JNull, JObj [(''id'', JNum 7)]])
          (newWSv2 (defaultOpts\<lparr>optOrderOpBufferDelay := Some 50\<rparr>)
             \<lparr>hasSocket := True, isOpen := True, isAuthenticated := True\<rparr>))))) = []
   \<and> sent (snd (flushOrderOps
        (newWSv2 (defaultOpts\<lparr>optOrderOpBufferDelay := Some 50\<rparr>)
           \<lparr>hasSocket := True, isOpen := True, isAuthenticated := True\<rparr>))) = [multiOpMsg []]"
  by (simp add: sendOrderPacket_def hasOrderBuff_def ensureOrderBuffTimeout_def send_def ws_close_def
      onWSClose_def flushOrderOps_def submitOrderMultiOp_def opOfPacket_def arr_at_def
      newWSv2_def defaultOpts_def Let_def)

theorem order_op_batching_witness:
  "optOrderOpBufferDelay (defaultOpts\<lparr>optOrderOpBufferDelay := Some 50\<rparr>) = Some 50
   \<and> hasOrderBuff (newWSv2 (defaultOpts\<lparr>optOrderOpBufferDelay := Some 50\<rparr>))
   \<and> orderOpBuffer (sendOrderPacket (JArr [JNum 0, JStr ''oc'', JNull, JObj [(''id'', JNum 7)]])
          (newWSv2 (defaultOpts\<lparr>optOrderOpBufferDelay := Some 50\<rparr>)))
       = [JArr [JNum 0, JStr ''oc'', JNull, JObj [(''id'', JNum 7)]]]
   \<and> sent (sendOrderPacket (JArr [JNum 0, JStr ''oc'', JNull, JObj [(''id'', JNum 7)]])
          (newWSv2 (defaultOpts\<lparr>optOrderOpBufferDelay := Some 50\<rparr>))) = []
   \<and> (\<exists>batches.
        flushOrderOps (newWSv2 (defaultOpts\<lparr>optOrderOpBufferDelay := Some 50\<rparr>)
            \<lparr>hasSocket := True, isOpen := True, isAuthenticated := True,
             orderOpBuffer := map (\<lambda>i. JArr [JNum 0, JStr ''on'', JNull, JNum (int i)]) [0..<37]\<rparr>)
          = (replicate (length batches) None,
             newWSv2 (defaultOpts\<lparr>optOrderOpBufferDelay := Some 50\<rparr>)
               \<lparr>hasSocket := True, isOpen := True, isAuthenticated := True,
                orderOpBuffer := map (\<lambda>i. JArr [JNum 0, JStr ''on'', JNull, JNum (int i)]) [0..<37],
                orderOpTimeout := False, orderOpBuffer := [], sent := map multiOpMsg batches\<rparr>)
        \<and> concat batches = map (\<lambda>i. JArr [JStr ''on'', JNum (int i)]) [0..<37]
        \<and> (\<forall>b \<in> set batches. b \<noteq> [] \<and> length b \<le> 15)
        \<and> (\<forall>i. Suc i < length batches \<longrightarrow> length (batches ! i) = 15)
        \<and> length batches = 3)
   \<and> (\<exists>batches.
        flushOrderOps (newWSv2 (defaultOpts\<lparr>optOrderOpBufferDelay := Some 50\<rparr>)
            \<lparr>hasSocket := True, isOpen := True, isAuthenticated := True\<rparr>)
          = (replicate (length batches) None,
             newWSv2 (defaultOpts\<lparr>optOrderOpBufferDelay := Some 50\<rparr>)
               \<lparr>hasSocket := True, isOpen := True, isAuthenticated := True,
                orderOpTimeout := False, orderOpBuffer := [], sent := map multiOpMsg batches\<rparr>)
        \<and> batches = [[]])
   \<and> isClosing (newWSv2 (defaultOpts\<lparr>optOrderOpBufferDelay := Some 50\<rparr>)
            \<lparr>hasSocket := True, isOpen := True, isAuthenticated := True, isClosing := True,
             orderOpBuffer := [JArr [JNum 0, JStr ''oc'', JNull, JObj [(''id'', JNum 7)]]]\<rparr>)
   \<and> orderOpBuffer (snd (flushOrderOps (newWSv2 (defaultOpts\<lparr>optOrderOpBufferDelay := Some 50\<rparr>)
            \<lparr>hasSocket := True, isOpen := True, isAuthenticated := True, isClosing := True,
             orderOpBuffer := [JArr [JNum 0, JStr ''oc'', JNull, JObj [(''id'', JNum 7)]]]\<rparr>))) = []
   \<and> sent (snd (flushOrderOps (newWSv2 (defaultOpts\<lparr>optOrderOpBufferDelay := Some 50\<rparr>)
            \<lparr>hasSocket := True, isOpen := True, isAuthenticated := True, isClosing := True,
             orderOpBuffer := [JArr [JNum 0, JStr ''oc'', JNull, JObj [(''id'', JNum 7)]]]\<rparr>))) = []"
proof -
  let ?o = "defaultOpts\<lparr>optOrderOpBufferDelay := Some 50\<rparr>"
  let ?q = "map (\<lambda>i. JArr [JNum 0, JStr ''on'', JNull, JNum (int i)]) [0..<37]"
  let ?b = "newWSv2 ?o\<lparr>hasSocket := True, isOpen := True, isAuthenticated := True\<rparr>"
  let ?s = "newWSv2 ?o\<lparr>hasSocket := True, isOpen := True, isAuthenticated := True, orderOpBuffer := ?q\<rparr>"
  let ?c = "JArr [JNum 0, JStr ''oc'', JNull, JObj [(''id'', JNum 7)]]"
  let ?k = "newWSv2 ?o\<lparr>hasSocket := True, isOpen := True, isAuthenticated := True, isClosing := True,
             orderOpBuffer := [?c]\<rparr>"
  have d: "optOrderOpBufferDelay ?o = Some 50 \<and> (50::int) > 0" by simp
  have h: "isAuthenticated ?s \<and> hasSocket ?s \<and> isOpen ?s \<and> \<not> isClosing ?s"
    by (simp add: newWSv2_def)
  have hb: "isAuthenticated ?b \<and> hasSocket ?b \<and> isOpen ?b \<and> \<not> isClosing ?b"
    by (simp add: newWSv2_def)
  have ne: "orderOpBuffer ?s \<noteq> []" by simp
  have eb: "orderOpBuffer ?b = []" "sent ?b = []" by (simp_all add: newWSv2_def)
  have q: "map opOfPacket (orderOpBuffer ?s) = map (\<lambda>i. JArr [JStr ''on'', JNum (int i)]) [0..<37]"
    by (simp add: opOfPacket_def arr_at_def)
  have l: "(length (orderOpBuffer ?s) + 14) div 15 = 3" by simp
  have e: "sent ?s = []" by (simp add: newWSv2_def)
  note t = order_op_batching [of ?o 50 ?s undefined]
  have b: "hasOrderBuff (newWSv2 ?o)" using t d by blast
  have e0: "orderOpBuffer (newWSv2 ?o) = []" "sent (newWSv2 ?o) = []" by (simp_all add: newWSv2_def)
  have k: "orderOpBuffer (sendOrderPacket ?c (newWSv2 ?o)) = [?c] \<and> sent (sendOrderPacket ?c (newWSv2 ?o)) = []"
    using order_op_batching [of ?o 50 "newWSv2 ?o" ?c] b e0 by simp
  from t h ne obtain batches where
    "flushOrderOps ?s = (replicate (length batches) None,
        ?s\<lparr>orderOpTimeout := False, orderOpBuffer := [], sent := sent ?s @ map multiOpMsg batches\<rparr>)"
    "concat batches = map opOfPacket (orderOpBuffer ?s)"
    "\<forall>b \<in> set batches. length b \<le> 15"
    "\<forall>b \<in> set batches. b \<noteq> []"
    "\<forall>i. Suc i < length batches \<longrightarrow> length (batches ! i) = 15"
    "length batches = (length (orderOpBuffer ?s) + 14) div 15"
    by blast
  then have r1: "\<exists>batches. flushOrderOps ?s = (replicate (length batches) None,
        ?s\<lparr>orderOpTimeout := False, orderOpBuffer := [], sent := map multiOpMsg batches\<rparr>)
     \<and> concat batches = map (\<lambda>i. JArr [JStr ''on'', JNum (int i)]) [0..<37]
     \<and> (\<forall>b \<in> set batches. b \<noteq> [] \<and> length b \<le> 15)
     \<and> (\<forall>i. Suc i < length batches \<longrightarrow> length (batches ! i) = 15)
     \<and> length batches = 3"
    by (intro exI [of _ batches]) (simp only: q l e append_Nil, blast)
  from order_op_batching [of ?o 50 ?b undefined] hb eb(1) obtain bs where
    "flushOrderOps ?b = (replicate (length bs) None,
        ?b\<lparr>orderOpTimeout := False, orderOpBuffer := [], sent := sent ?b @ map multiOpMsg bs\<rparr>)"
    "bs = [[]]"
    by blast
  then have r2: "\<exists>batches. flushOrderOps ?b = (replicate (length batches) None,
        ?b\<lparr>orderOpTimeout := False, orderOpBuffer := [], sent := map multiOpMsg batches\<rparr>)
     \<and> batches = [[]]"
    by (intro exI [of _ bs]) (simp add: eb)
  have kc: "isClosing ?k" by simp
  then have nk: "\<not> (isAuthenticated ?k \<and> hasSocket ?k \<and> isOpen ?k \<and> \<not> isClosing ?k)" by blast
  have ek: "sent ?k = []" by (simp add: newWSv2_def)
  have r3: "orderOpBuffer (snd (flushOrderOps ?k)) = [] \<and> sent (snd (flushOrderOps ?k)) = []"
    using order_op_batching [of ?o 50 ?k undefined] nk ek by simp
  show ?thesis using d b k r1 r2 kc r3 by (intro conjI) (assumption | blast)+
qed

text \<open>The specification's example: 37 queued operations leave as batches of 15, 15 and 7.\<close>

lemma flush_37_operations:
  "sent (snd (flushOrderOps (newWSv2 (defaultOpts\<lparr>optOrderOpBufferDelay := Some 50\<rparr>)
       \<lparr>hasSocket := True, isOpen := True, isAuthenticated := True,
        orderOpBuffer := map (\<lambda>i. JArr [JNum 0, JStr ''on'', JNull, JNum (int i)]) [0..<37]\<rparr>)))
   = [multiOpMsg (map (\<lambda>i. JArr [JStr ''on'', JNum (int i)]) [0..<15]),
      multiOpMsg (map (\<lambda>i. JArr [JStr ''on'', JNum (int i)]) [15..<30]),
      multiOpMsg (map (\<lambda>i. JArr [JStr ''on'', JNum (int i)]) [30..<37])]"
proof -
  let ?q = "map (\<lambda>i. JArr [JNum 0, JStr ''on'', JNull, JNum (int i)]) [0..<37]"
  let ?s = "newWSv2 (defaultOpts\<lparr>optOrderOpBufferDelay := Some 50\<rparr>)
       \<lparr>hasSocket := True, isOpen := True, isAuthenticated := True, orderOpBuffer := ?q\<rparr>"
  let ?ops = "map (\<lambda>i. JArr [JStr ''on'', JNum (int i)]) [0..<37]"
  let ?s1 = "?s\<lparr>orderOpTimeout := False, orderOpBuffer := []\<rparr>"
  have q: "map opOfPacket ?q = ?ops" by (simp add: opOfPacket_def arr_at_def)
  have fl: "flushOrderOps ?s = flushLoop ?ops ?s1"
  proof -
    have b: "orderOpBuffer ?s = ?q" by simp
    have n: "\<not> length ?ops \<le> 15" by simp
    show ?thesis unfolding flushOrderOps_def Let_def b q using n by (simp only: if_False)
  qed
  have a: "isAuthenticated ?s1" "hasSocket ?s1" "isOpen ?s1" "\<not> isClosing ?s1"
    by (simp_all add: newWSv2_def)
  have b: "batchesOf15 ?ops =
      [map (\<lambda>i. JArr [JStr ''on'', JNum (int i)]) [0..<15],
       map (\<lambda>i. JArr [JStr ''on'', JNum (int i)]) [15..<30],
       map (\<lambda>i. JArr [JStr ''on'', JNum (int i)]) [30..<37]]"
    by (simp add: batchesOf15.simps take_map drop_map take_upt drop_upt del: upt_rec_numeral)
  show ?thesis
    by (simp only: fl flushLoop_batches [OF a] b) (simp add: newWSv2_def)
qed

section \<open>Properties of the managed subscriptions\<close>

lemma chanIdByIdentifier_frame [simp]:
  "chanIdByIdentifier c i (s\<lparr>subscriptionRefs := r\<rparr>) = chanIdByIdentifier c i s"
  "chanIdByIdentifier c i (s\<lparr>sent := m\<rparr>) = chanIdByIdentifier c i s"
  by (simp_all add: chanIdByIdentifier_def)

lemma managedSubscribe_first:
  assumes "hasSocket s" and "isOpen s" and "\<not> isClosing s"
    and "subscriptionRefs s (refKey c i) = None"
  shows "managedSubscribe c i p s =
           (True, s\<lparr>subscriptionRefs := (subscriptionRefs s)(refKey c i \<mapsto> 1),
                     sent := sent s @ [subscribeMsg c p]\<rparr>)"
  using assms by (simp add: managedSubscribe_def subscribe_def send_def)

lemma managedSubscribes_counted:
  "subscriptionRefs s (refKey c i) = Some n \<Longrightarrow> 1 \<le> n
   \<Longrightarrow> managedSubscribes c i ps s =
         (replicate (length ps) False,
          s\<lparr>subscriptionRefs := (subscriptionRefs s)(refKey c i \<mapsto> n + int (length ps))\<rparr>)"
proof (induction ps arbitrary: s n)
  case Nil
  then have "(subscriptionRefs s)(refKey c i \<mapsto> n) = subscriptionRefs s" by (simp add: fun_upd_idem)
  then show ?case by simp
next
  case (Cons p ps)
  let ?s1 = "s\<lparr>subscriptionRefs := (subscriptionRefs s)(refKey c i \<mapsto> n + 1)\<rparr>"
  have one: "managedSubscribe c i p s = (False, ?s1)"
    using Cons.prems by (simp add: managedSubscribe_def)
  have "managedSubscribes c i ps ?s1 =
         (replicate (length ps) False,
          ?s1\<lparr>subscriptionRefs := (subscriptionRefs ?s1)(refKey c i \<mapsto> (n + 1) + int (length ps))\<rparr>)"
    using Cons.prems by (intro Cons.IH) simp_all
  with one show ?case by (simp add: add.assoc fun_upd_def cong: if_cong)
qed

lemma managedUnsubscribes_counted:
  "hasSocket s \<Longrightarrow> isOpen s \<Longrightarrow> \<not> isClosing s \<Longrightarrow> chanIdByIdentifier c i s = Some cid
   \<Longrightarrow> subscriptionRefs s (refKey c i) = Some (int (Suc k))
   \<Longrightarrow> managedUnsubscribes c i (Suc k) s =
         (replicate k False @ [True],
          s\<lparr>subscriptionRefs := (subscriptionRefs s)(refKey c i := None),
            sent := sent s @ [unsubscribeMsg cid]\<rparr>)"
proof (induction k arbitrary: s)
  case 0
  then show ?case
    by (simp add: managedUnsubscribe_def unsubscribe_def send_def Let_def fun_upd_def cong: if_cong)
next
  case (Suc k)
  let ?s1 = "s\<lparr>subscriptionRefs := (subscriptionRefs s)(refKey c i \<mapsto> int (Suc k))\<rparr>"
  have one: "managedUnsubscribe c i s = (False, ?s1)"
    using Suc.prems by (simp add: managedUnsubscribe_def Let_def)
  have "managedUnsubscribes c i (Suc k) ?s1 =
         (replicate k False @ [True],
          ?s1\<lparr>subscriptionRefs := (subscriptionRefs ?s1)(refKey c i := None),
              sent := sent ?s1 @ [unsubscribeMsg cid]\<rparr>)"
    using Suc.prems by (intro Suc.IH) simp_all
  with one show ?case by (simp add: fun_upd_def cong: if_cong)
qed

text \<open>
  Claim C6, as the code has it, on a connection that is open and not closing.
  Subscribing a pair without reference count for the \<open>N \<ge> 1\<close> payloads \<open>ps\<close> returns
  \<^verbatim>\<open>true\<close> once and then \<^verbatim>\<open>false\<close>, leaves the count at \<open>N\<close> and sends exactly one
  subscribe request, for the first payload. With a count of \<open>N \<ge> 1\<close> and a channel of the
  pair recorded in the channel map under id \<open>cid\<close>, \<open>N\<close> calls of \<^verbatim>\<open>managedUnsubscribe\<close>
  return \<^verbatim>\<open>false\<close> until the last returns \<^verbatim>\<open>true\<close>, send exactly one unsubscribe
  request, for \<open>cid\<close>, and delete the count; one more call returns \<^verbatim>\<open>false\<close> and changes
  nothing.
\<close>

theorem managed_subscription_refcount:
  assumes "hasSocket s" and "isOpen s" and "\<not> isClosing s"
  shows "(subscriptionRefs s (refKey c i) = None \<and> ps \<noteq> [] \<longrightarrow>
            managedSubscribes c i ps s =
              (True # replicate (length ps - 1) False,
               s\<lparr>subscriptionRefs := (subscriptionRefs s)(refKey c i \<mapsto> int (length ps)),
                 sent := sent s @ [subscribeMsg c (hd ps)]\<rparr>))
       \<and> (subscriptionRefs s (refKey c i) = Some (int n) \<and> 1 \<le> n \<and> chanIdByIdentifier c i s = Some cid \<longrightarrow>
            managedUnsubscribes c i n s =
              (replicate (n - 1) False @ [True],
               s\<lparr>subscriptionRefs := (subscriptionRefs s)(refKey c i := None),
                 sent := sent s @ [unsubscribeMsg cid]\<rparr>)
          \<and> managedUnsubscribe c i
               (s\<lparr>subscriptionRefs := (subscriptionRefs s)(refKey c i := None),
                  sent := sent s @ [unsubscribeMsg cid]\<rparr>) =
              (False, s\<lparr>subscriptionRefs := (subscriptionRefs s)(refKey c i := None),
                        sent := sent s @ [unsubscribeMsg cid]\<rparr>))"
proof -
  have p1: "managedSubscribes c i ps s =
              (True # replicate (length ps - 1) False,
               s\<lparr>subscriptionRefs := (subscriptionRefs s)(refKey c i \<mapsto> int (length ps)),
                 sent := sent s @ [subscribeMsg c (hd ps)]\<rparr>)"
    if a: "subscriptionRefs s (refKey c i) = None \<and> ps \<noteq> []"
  proof -
    from a obtain p rest where ps: "ps = p # rest" by (cases ps) auto
    let ?s1 = "s\<lparr>subscriptionRefs := (subscriptionRefs s)(refKey c i \<mapsto> 1),
                 sent := sent s @ [subscribeMsg c p]\<rparr>"
    have one: "managedSubscribe c i p s = (True, ?s1)"
      using assms a by (intro managedSubscribe_first) simp_all
    have "managedSubscribes c i rest ?s1 =
            (replicate (length rest) False,
             ?s1\<lparr>subscriptionRefs := (subscriptionRefs ?s1)(refKey c i \<mapsto> 1 + int (length rest))\<rparr>)"
      by (intro managedSubscribes_counted) simp_all
    with one ps show ?thesis by (simp add: fun_upd_def cong: if_cong)
  qed
  have p2: "managedUnsubscribes c i n s =
              (replicate (n - 1) False @ [True],
               s\<lparr>subscriptionRefs := (subscriptionRefs s)(refKey c i := None),
                 sent := sent s @ [unsubscribeMsg cid]\<rparr>)"
    if a: "subscriptionRefs s (refKey c i) = Some (int n) \<and> 1 \<le> n \<and> chanIdByIdentifier c i s = Some cid"
  proof -
    from a obtain k where n: "n = Suc k" by (cases n) auto
    have "managedUnsubscribes c i (Suc k) s =
         (replicate k False @ [True],
          s\<lparr>subscriptionRefs := (subscriptionRefs s)(refKey c i := None),
            sent := sent s @ [unsubscribeMsg cid]\<rparr>)"
      using assms a n by (intro managedUnsubscribes_counted) simp_all
    with n show ?thesis by simp
  qed
  have p3: "managedUnsubscribe c i
               (s\<lparr>subscriptionRefs := (subscriptionRefs s)(refKey c i := None),
                  sent := sent s @ [unsubscribeMsg cid]\<rparr>) =
              (False, s\<lparr>subscriptionRefs := (subscriptionRefs s)(refKey c i := None),
                        sent := sent s @ [unsubscribeMsg cid]\<rparr>)"
    by (simp add: managedUnsubscribe_def Let_def split: option.splits)
  show ?thesis using p1 p2 p3 by blast
qed

text \<open>
  The claim as first stated asked nothing of the channel map. Without the server's
  confirmation no channel id is known for the pair, and \<^verbatim>\<open>managedUnsubscribe\<close> returns
  \<^verbatim>\<open>false\<close> without touching the count or sending anything: after one
  \<^verbatim>\<open>managedSubscribe\<close>, the one matching \<^verbatim>\<open>managedUnsubscribe\<close> is such a call.
\<close>

theorem managed_subscription_refcount_counterexample:
  "managedSubscribe ''trades'' ''tBTCUSD'' [(''symbol'', JStr ''tBTCUSD'')]
     (newWSv2 defaultOpts\<lparr>hasSocket := True, isOpen := True\<rparr>)
   = (True, newWSv2 defaultOpts\<lparr>hasSocket := True, isOpen := True,
        subscriptionRefs := [''trades:tBTCUSD'' \<mapsto> 1],
        sent := [JObj [(''event'', JStr ''subscribe''), (''channel'', JStr ''trades''),
                       (''symbol'', JStr ''tBTCUSD'')]]\<rparr>)
   \<and> managedUnsubscribe ''trades'' ''tBTCUSD''
       (newWSv2 defaultOpts\<lparr>hasSocket := True, isOpen := True,
          subscriptionRefs := [''trades:tBTCUSD'' \<mapsto> 1],
          sent := [JObj [(''event'', JStr ''subscribe''), (''channel'', JStr ''trades''),
                         (''symbol'', JStr ''tBTCUSD'')]]\<rparr>)
   = (False, newWSv2 defaultOpts\<lparr>hasSocket := True, isOpen := True,
        subscriptionRefs := [''trades:tBTCUSD'' \<mapsto> 1],
        sent := [JObj [(''event'', JStr ''subscribe''), (''channel'', JStr ''trades''),
                       (''symbol'', JStr ''tBTCUSD'')]]\<rparr>)"
  by (simp add: managedSubscribe_def managedUnsubscribe_def subscribe_def subscribeMsg_def send_def
      refKey_def chanIdByIdentifier_def newWSv2_def defaultOpts_def)

theorem managed_subscription_refcount_witness:
  "hasSocket (newWSv2 defaultOpts\<lparr>hasSocket := True, isOpen := True\<rparr>)
   \<and> isOpen (newWSv2 defaultOpts\<lparr>hasSocket := True, isOpen := True\<rparr>)
   \<and> subscriptionRefs (newWSv2 defaultOpts\<lparr>hasSocket := True, isOpen := True\<rparr>)
         (refKey ''trades'' ''tBTCUSD'') = None
   \<and> fst (managedSubscribes ''trades'' ''tBTCUSD''
         [[(''symbol'', JStr ''tBTCUSD'')], [(''symbol'', JStr ''tBTCUSD'')], [(''symbol'', JStr ''tBTCUSD'')]]
         (newWSv2 defaultOpts\<lparr>hasSocket := True, isOpen := True\<rparr>)) = [True, False, False]
   \<and> sent (snd (managedSubscribes ''trades'' ''tBTCUSD''
         [[(''symbol'', JStr ''tBTCUSD'')], [(''symbol'', JStr ''tBTCUSD'')], [(''symbol'', JStr ''tBTCUSD'')]]
         (newWSv2 defaultOpts\<lparr>hasSocket := True, isOpen := True\<rparr>)))
       = [subscribeMsg ''trades'' [(''symbol'', JStr ''tBTCUSD'')]]
   \<and> chanIdByIdentifier ''trades'' ''tBTCUSD''
        (handleSubscribedEvent 17
           (JObj [(''event'', JStr ''subscribed''), (''channel'', JStr ''trades''),
                  (''chanId'', JNum 17), (''symbol'', JStr ''tBTCUSD'')])
           (snd (managedSubscribes ''trades'' ''tBTCUSD''
              [[(''symbol'', JStr ''tBTCUSD'')], [(''symbol'', JStr ''tBTCUSD'')], [(''symbol'', JStr ''tBTCUSD'')]]
              (newWSv2 defaultOpts\<lparr>hasSocket := True, isOpen := True\<rparr>)))) = Some 17
   \<and> fst (managedUnsubscribes ''trades'' ''tBTCUSD'' 3
        (handleSubscribedEvent 17
           (JObj [(''event'', JStr ''subscribed''), (''channel'', JStr ''trades''),
                  (''chanId'', JNum 17), (''symbol'', JStr ''tBTCUSD'')])
           (snd (managedSubscribes ''trades'' ''tBTCUSD''
              [[(''symbol'', JStr ''tBTCUSD'')], [(''symbol'', JStr ''tBTCUSD'')], [(''symbol'', JStr ''tBTCUSD'')]]
              (newWSv2 defaultOpts\<lparr>hasSocket := True, isOpen := True\<rparr>))))) = [False, False, True]
   \<and> sent (snd (managedUnsubscribes ''trades'' ''tBTCUSD'' 3
        (handleSubscribedEvent 17
           (JObj [(''event'', JStr ''subscribed''), (''channel'', JStr ''trades''),
                  (''chanId'', JNum 17), (''symbol'', JStr ''tBTCUSD'')])
           (snd (managedSubscribes ''trades'' ''tBTCUSD''
              [[(''symbol'', JStr ''tBTCUSD'')], [(''symbol'', JStr ''tBTCUSD'')], [(''symbol'', JStr ''tBTCUSD'')]]
              (newWSv2 defaultOpts\<lparr>hasSocket := True, isOpen := True\<rparr>))))))
       = [subscribeMsg ''trades'' [(''symbol'', JStr ''tBTCUSD'')], unsubscribeMsg 17]"
proof -
  let ?s0 = "newWSv2 defaultOpts\<lparr>hasSocket := True, isOpen := True\<rparr>"
  let ?p = "[(''symbol'', JStr ''tBTCUSD'')]"
  let ?conf = "JObj [(''event'', JStr ''subscribed''), (''channel'', JStr ''trades''),
                  (''chanId'', JNum 17), (''symbol'', JStr ''tBTCUSD'')]"
  let ?s1 = "?s0\<lparr>subscriptionRefs := (subscriptionRefs ?s0)(refKey ''trades'' ''tBTCUSD'' \<mapsto> int (length [?p, ?p, ?p])),
                 sent := sent ?s0 @ [subscribeMsg ''trades'' (hd [?p, ?p, ?p])]\<rparr>"
  let ?s2 = "handleSubscribedEvent 17 ?conf ?s1"
  have o0: "hasSocket ?s0" "isOpen ?s0" "\<not> isClosing ?s0" by (simp_all add: newWSv2_def)
  have r0: "subscriptionRefs ?s0 (refKey ''trades'' ''tBTCUSD'') = None" by (simp add: newWSv2_def)
  have e0: "sent ?s0 = []" by (simp add: newWSv2_def)
  have subs: "managedSubscribes ''trades'' ''tBTCUSD'' [?p, ?p, ?p] ?s0 =
                (True # replicate (length [?p, ?p, ?p] - 1) False, ?s1)"
    using managed_subscription_refcount [OF o0, of "''trades''" "''tBTCUSD''" "[?p, ?p, ?p]" 0 0] r0
    by blast
  have o2: "hasSocket ?s2" "isOpen ?s2" "\<not> isClosing ?s2"
    by (simp_all add: handleSubscribedEvent_def newWSv2_def)
  have r2: "subscriptionRefs ?s2 (refKey ''trades'' ''tBTCUSD'') = Some (int 3)"
    by (simp add: handleSubscribedEvent_def)
  have c2: "chanIdByIdentifier ''trades'' ''tBTCUSD'' ?s2 = Some 17"
    by (simp add: handleSubscribedEvent_def chanIdByIdentifier_def newWSv2_def)
  have e2: "sent ?s2 = [subscribeMsg ''trades'' ?p]"
    by (simp add: handleSubscribedEvent_def e0)
  have unsubs: "managedUnsubscribes ''trades'' ''tBTCUSD'' 3 ?s2 =
       (replicate (3 - 1) False @ [True],
        ?s2\<lparr>subscriptionRefs := (subscriptionRefs ?s2)(refKey ''trades'' ''tBTCUSD'' := None),
            sent := sent ?s2 @ [unsubscribeMsg 17]\<rparr>)"
    using managed_subscription_refcount [OF o2, of "''trades''" "''tBTCUSD''" "[]" 3 17] r2 c2
    by simp
  have f1: "fst (managedSubscribes ''trades'' ''tBTCUSD'' [?p, ?p, ?p] ?s0) = [True, False, False]"
    by (simp only: subs fst_conv) (simp add: numeral_2_eq_2)
  have f2: "snd (managedSubscribes ''trades'' ''tBTCUSD'' [?p, ?p, ?p] ?s0) = ?s1"
    by (simp only: subs snd_conv)
  have f3: "sent ?s1 = [subscribeMsg ''trades'' ?p]" by (simp add: e0)
  have f4: "fst (managedUnsubscribes ''trades'' ''tBTCUSD'' 3 ?s2) = [False, False, True]"
    by (simp only: unsubs fst_conv) (simp add: numeral_2_eq_2)
  have f5: "sent (snd (managedUnsubscribes ''trades'' ''tBTCUSD'' 3 ?s2))
              = [subscribeMsg ''trades'' ?p, unsubscribeMsg 17]"
    by (simp only: unsubs snd_conv) (simp add: handleSubscribedEvent_def newWSv2_def)
  show ?thesis
    unfolding f2 using o0 r0 f1 f3 c2 f4 f5 by (intro conjI) assumption+
qed

section \<open>Properties of the dispatch\<close>

lemma payloadPassesFilter_defined:
  "\<not> js_nullish payload \<Longrightarrow>
   payloadPassesFilter payload flt =
     Some (\<forall>(k, fv) \<in> set flt. js_isEmpty fv \<or> js_strict_eq fv (JStr ''*'')
                                  \<or> js_strict_eq (js_idx payload k) fv)"
  by (induction flt) (auto simp: js_get_def)

lemma filterByData_not_nullish:
  "filterOverride pk \<noteq> None \<or> \<not> js_nullish item \<Longrightarrow> \<not> js_nullish (filterByData pk item)"
  by (auto simp: filterByData_def split: option.splits)

lemma anyItemPasses_defined:
  "\<forall>it \<in> set items. \<not> js_nullish (filterByData pk it) \<Longrightarrow>
   anyItemPasses pk flt items =
     Some (\<exists>it \<in> set items. payloadPassesFilter (filterByData pk it) flt = Some True)"
proof (induction items)
  case Nil
  then show ?case by simp
next
  case (Cons it items)
  then have "\<not> js_nullish (filterByData pk it)" by simp
  then obtain b where b: "payloadPassesFilter (filterByData pk it) flt = Some b"
    using payloadPassesFilter_defined by blast
  with Cons show ?case by auto
qed

lemma wellFormedPayload_not_nullish: "wellFormedPayload pk data \<Longrightarrow> \<not> js_nullish data"
  by (cases data) (simp_all add: wellFormedPayload_def)

lemma wellFormedPayload_snapshot:
  "wellFormedPayload pk data \<Longrightarrow> js_is_array (js_idx data 0) \<Longrightarrow>
   \<exists>items. data = JArr items \<and> (\<forall>it \<in> set items. \<not> js_nullish (filterByData pk it))"
  by (cases data) (auto simp: wellFormedPayload_def filterByData_def split: option.splits)

lemma listenerPasses_defined:
  assumes "wellFormedPayload pk data"
  shows "\<exists>b. listenerPasses pk data l = Some b"
proof (cases "filter l")
  case None
  then have "listenerPasses pk data l = Some True" by (simp add: listenerPasses_def)
  then show ?thesis by blast
next
  case (Some flt)
  have nn: "\<not> js_nullish data" using assms by (rule wellFormedPayload_not_nullish)
  show ?thesis
  proof (cases "js_is_array (js_idx data 0)")
    case True
    with assms obtain items where
      "data = JArr items" "\<forall>it \<in> set items. \<not> js_nullish (filterByData pk it)"
      using wellFormedPayload_snapshot by blast
    with Some True nn show ?thesis
      by (simp add: listenerPasses_def js_get_def anyItemPasses_defined)
  next
    case False
    have "\<not> js_nullish (filterByData pk data)"
      using nn by (intro filterByData_not_nullish) simp
    with Some False nn show ?thesis
      by (simp add: listenerPasses_def js_get_def payloadPassesFilter_defined)
  qed
qed

lemma filterListeners_defined:
  assumes "wellFormedPayload pk data"
  shows "filterListeners pk data ls = Some (List.filter (\<lambda>l. listenerPasses pk data l = Some True) ls)"
proof (induction ls)
  case Nil
  show ?case by simp
next
  case (Cons l ls)
  obtain b where "listenerPasses pk data l = Some b"
    using listenerPasses_defined [OF assms] by blast
  with Cons show ?case by simp
qed

lemma callbackArg_defined:
  assumes "wellFormedPayload pk data"
  shows "\<exists>arg. callbackArg transf data l = Some arg"
proof -
  have nn: "\<not> js_nullish data" using assms by (rule wellFormedPayload_not_nullish)
  then have "\<exists>z. lengthIsZero data = Some z" by (cases data) auto
  then obtain z where z: "lengthIsZero data = Some z" by blast
  show ?thesis
  proof (cases "js_is_array (js_idx data 0)")
    case True
    with assms obtain items where "data = JArr items"
      using wellFormedPayload_snapshot by blast
    with z show ?thesis by (simp add: callbackArg_def split: option.splits)
  next
    case False
    with z show ?thesis by (simp add: callbackArg_def split: option.splits)
  qed
qed

lemma invokeListeners_defined:
  assumes "wellFormedPayload pk data"
  shows "\<exists>cs. invokeListeners transf data chanData ps = (cs, Returned)
           \<and> (\<forall>L. (\<exists>arg. Call L arg chanData \<in> set cs) \<longleftrightarrow> L \<in> set ps)"
proof (induction ps)
  case Nil
  show ?case by simp
next
  case (Cons l ps)
  obtain arg where a: "callbackArg transf data l = Some arg"
    using callbackArg_defined [OF assms] by blast
  from Cons obtain cs where cs: "invokeListeners transf data chanData ps = (cs, Returned)"
    "\<forall>L. (\<exists>arg. Call L arg chanData \<in> set cs) \<longleftrightarrow> L \<in> set ps" by blast
  have "invokeListeners transf data chanData (l # ps) = (Call l arg chanData # cs, Returned)"
    using a cs(1) by simp
  moreover have "\<forall>L. (\<exists>a. Call L a chanData \<in> set (Call l arg chanData # cs)) \<longleftrightarrow> L \<in> set (l # ps)"
    using cs(2) by auto
  ultimately show ?case by blast
qed

lemma notifyListenerGroup_calls:
  assumes "map_of lGroup (js_to_string (arr_at (elems pk) 1)) = Some ls"
    and "wellFormedPayload pk (js_default (arr_at (elems pk) 2) (JArr []))"
  shows "\<exists>cs. notifyListenerGroup lGroup pk transf chanData
                = (notifyCatchAllListeners lGroup pk @ cs, Returned)
           \<and> (\<forall>L. (\<exists>arg. Call L arg chanData \<in> set cs) \<longleftrightarrow>
                    (L \<in> set ls \<and>
                     listenerPasses pk (js_default (arr_at (elems pk) 2) (JArr [])) L = Some True))"
proof -
  let ?data = "js_default (arr_at (elems pk) 2) (JArr [])"
  let ?ps = "List.filter (\<lambda>l. listenerPasses pk ?data l = Some True) ls"
  have fl: "filterListeners pk ?data ls = Some ?ps"
    using assms(2) by (rule filterListeners_defined)
  show ?thesis
  proof (cases "?ps = []")
    case True
    then have none: "\<forall>L. \<not> (L \<in> set ls \<and> listenerPasses pk ?data L = Some True)"
      by (auto simp: filter_empty_conv)
    have "notifyListenerGroup lGroup pk transf chanData = (notifyCatchAllListeners lGroup pk @ [], Returned)"
      using assms(1) fl True by (simp add: notifyListenerGroup_def Let_def)
    with none show ?thesis by (intro exI [of _ "[]"]) simp
  next
    case False
    then have ne: "ls \<noteq> []" by auto
    obtain cs where cs: "invokeListeners transf ?data chanData ?ps = (cs, Returned)"
      "\<forall>L. (\<exists>arg. Call L arg chanData \<in> set cs) \<longleftrightarrow> L \<in> set ?ps"
      using invokeListeners_defined [OF assms(2)] by blast
    have "notifyListenerGroup lGroup pk transf chanData = (notifyCatchAllListeners lGroup pk @ cs, Returned)"
      using assms(1) fl False ne cs(1) by (simp add: notifyListenerGroup_def Let_def)
    with cs(2) show ?thesis by (intro exI [of _ cs]) simp
  qed
qed

lemma notifyListenerGroup_catch_all:
  "\<exists>cs c. notifyListenerGroup lGroup pk transf chanData = (notifyCatchAllListeners lGroup pk @ cs, c)"
proof -
  have "\<exists>cs c. (case invokeListeners transf data chanData ps of (cs, c) \<Rightarrow> (c0 @ cs, c)) = (c0 @ cs, c)"
    for data ps and c0 :: "cb_call list"
    by (cases "invokeListeners transf data chanData ps") simp
  moreover have "\<exists>cs. (c0, c) = (c0 @ cs, c)" for c0 :: "cb_call list" and c :: completion
    by (intro exI [of _ "[]"]) simp
  ultimately show ?thesis
    by (simp add: notifyListenerGroup_def Let_def split: option.splits)
qed

lemma listenerPasses_single_key:
  assumes "wellFormedPayload pk data" and "filter L = Some [(0, JStr ''tBTCUSD'')]"
  shows "(listenerPasses pk data L = Some True) \<longleftrightarrow>
           (case data of
              JArr items \<Rightarrow>
                if js_is_array (arr_at items 0)
                then \<exists>item \<in> set items. js_strict_eq (js_idx (filterByData pk item) 0) (JStr ''tBTCUSD'')
                else js_strict_eq (js_idx (filterByData pk (JArr items)) 0) (JStr ''tBTCUSD'')
            | d \<Rightarrow> js_strict_eq (js_idx (filterByData pk d) 0) (JStr ''tBTCUSD''))"
proof -
  have nn: "\<not> js_nullish data" using assms(1) by (rule wellFormedPayload_not_nullish)
  have one: "payloadPassesFilter p [(0, JStr ''tBTCUSD'')]
               = Some (js_strict_eq (js_idx p 0) (JStr ''tBTCUSD''))" if "\<not> js_nullish p" for p
    using that by (simp add: js_get_def)
  show ?thesis
  proof (cases "js_is_array (js_idx data 0)")
    case True
    with assms(1) obtain items where
      d: "data = JArr items" and it: "\<forall>it \<in> set items. \<not> js_nullish (filterByData pk it)"
      using wellFormedPayload_snapshot by blast
    have "anyItemPasses pk [(0, JStr ''tBTCUSD'')] items =
            Some (\<exists>it \<in> set items. payloadPassesFilter (filterByData pk it) [(0, JStr ''tBTCUSD'')] = Some True)"
      using it by (rule anyItemPasses_defined)
    also have "\<dots> = Some (\<exists>it \<in> set items. js_strict_eq (js_idx (filterByData pk it) 0) (JStr ''tBTCUSD''))"
      using it by (auto simp: js_get_def)
    finally show ?thesis
      using True d assms(2) by (simp add: listenerPasses_def js_get_def)
  next
    case False
    have "\<not> js_nullish (filterByData pk data)"
      using nn by (intro filterByData_not_nullish) simp
    then have "payloadPassesFilter (filterByData pk data) [(0, JStr ''tBTCUSD'')]
               = Some (js_strict_eq (js_idx (filterByData pk data) 0) (JStr ''tBTCUSD''))"
      by (rule one)
    with False nn assms(2) show ?thesis
      by (cases data) (simp_all add: listenerPasses_def js_get_def)
  qed
qed

text \<open>
  Claim C7. In a listener group, for a packet with a well-formed payload: a listener
  registered under the packet's event name with the filter \<^verbatim>\<open>{0: 'tBTCUSD'}\<close> is called
  exactly when element 0 of the filter override, or else of the payload, is
  \<^verbatim>\<open>'tBTCUSD'\<close>, a snapshot passing when one of its items does. Every catch-all listener
  of the group is called with the packet itself, whatever the packet, the filters and the
  transform flag.
\<close>

theorem filtered_listener_dispatch:
  "(map_of lGroup (js_to_string (arr_at (elems pk) 1)) = Some ls
      \<and> L \<in> set ls \<and> filter L = Some [(0, JStr ''tBTCUSD'')]
      \<and> wellFormedPayload pk (js_default (arr_at (elems pk) 2) (JArr [])) \<longrightarrow>
      (\<exists>cs. notifyListenerGroup lGroup pk transf chanData
               = (notifyCatchAllListeners lGroup pk @ cs, Returned)
         \<and> ((\<exists>arg. Call L arg chanData \<in> set cs) \<longleftrightarrow>
              (case js_default (arr_at (elems pk) 2) (JArr []) of
                 JArr items \<Rightarrow>
                   if js_is_array (arr_at items 0)
                   then \<exists>item \<in> set items.
                          js_strict_eq (js_idx (filterByData pk item) 0) (JStr ''tBTCUSD'')
                   else js_strict_eq (js_idx (filterByData pk (JArr items)) 0) (JStr ''tBTCUSD'')
               | d \<Rightarrow> js_strict_eq (js_idx (filterByData pk d) 0) (JStr ''tBTCUSD'')))))
   \<and> (map_of lGroup [] = Some cl \<and> l \<in> set cl \<longrightarrow>
        Call l (Raw (JArr (elems pk))) JUndefined
          \<in> set (fst (notifyListenerGroup lGroup pk transf chanData)))"
proof (intro conjI impI)
  assume a: "map_of lGroup (js_to_string (arr_at (elems pk) 1)) = Some ls
      \<and> L \<in> set ls \<and> filter L = Some [(0, JStr ''tBTCUSD'')]
      \<and> wellFormedPayload pk (js_default (arr_at (elems pk) 2) (JArr []))"
  let ?data = "js_default (arr_at (elems pk) 2) (JArr [])"
  from a obtain cs where cs:
    "notifyListenerGroup lGroup pk transf chanData = (notifyCatchAllListeners lGroup pk @ cs, Returned)"
    "\<forall>L. (\<exists>arg. Call L arg chanData \<in> set cs) \<longleftrightarrow> (L \<in> set ls \<and> listenerPasses pk ?data L = Some True)"
    using notifyListenerGroup_calls by blast
  have "(\<exists>arg. Call L arg chanData \<in> set cs) \<longleftrightarrow> listenerPasses pk ?data L = Some True"
    using cs(2) a by blast
  also have "\<dots> \<longleftrightarrow>
      (case ?data of
         JArr items \<Rightarrow>
           if js_is_array (arr_at items 0)
           then \<exists>item \<in> set items. js_strict_eq (js_idx (filterByData pk item) 0) (JStr ''tBTCUSD'')
           else js_strict_eq (js_idx (filterByData pk (JArr items)) 0) (JStr ''tBTCUSD'')
       | d \<Rightarrow> js_strict_eq (js_idx (filterByData pk d) 0) (JStr ''tBTCUSD''))"
    using a by (intro listenerPasses_single_key) simp_all
  finally show "\<exists>cs. notifyListenerGroup lGroup pk transf chanData
               = (notifyCatchAllListeners lGroup pk @ cs, Returned)
         \<and> ((\<exists>arg. Call L arg chanData \<in> set cs) \<longleftrightarrow>
              (case ?data of
                 JArr items \<Rightarrow>
                   if js_is_array (arr_at items 0)
                   then \<exists>item \<in> set items.
                          js_strict_eq (js_idx (filterByData pk item) 0) (JStr ''tBTCUSD'')
                   else js_strict_eq (js_idx (filterByData pk (JArr items)) 0) (JStr ''tBTCUSD'')
               | d \<Rightarrow> js_strict_eq (js_idx (filterByData pk d) 0) (JStr ''tBTCUSD'')))"
    using cs(1) by blast
next
  assume b: "map_of lGroup [] = Some cl \<and> l \<in> set cl"
  obtain cs c where "notifyListenerGroup lGroup pk transf chanData = (notifyCatchAllListeners lGroup pk @ cs, c)"
    using notifyListenerGroup_catch_all by blast
  moreover have "Call l (Raw (JArr (elems pk))) JUndefined \<in> set (notifyCatchAllListeners lGroup pk)"
    using b by (simp add: notifyCatchAllListeners_def)
  ultimately show "Call l (Raw (JArr (elems pk))) JUndefined
          \<in> set (fst (notifyListenerGroup lGroup pk transf chanData))"
    by simp
qed

theorem filtered_listener_dispatch_witness:
  "map_of [([], [\<lparr>cb = 0, modelClass = None, filter = None\<rparr>]),
           (''ticker'', [\<lparr>cb = 1, modelClass = None, filter = Some [(0, JStr ''tBTCUSD'')]\<rparr>])]
      (js_to_string (arr_at (elems \<lparr>elems = [JNum 5, JStr ''ticker'', JArr [JNum 100, JNum 2]],
                                    filterOverride = Some [JStr ''tBTCUSD'']\<rparr>) 1))
     = Some [\<lparr>cb = 1, modelClass = None, filter = Some [(0, JStr ''tBTCUSD'')]\<rparr>]
   \<and> wellFormedPayload \<lparr>elems = [JNum 5, JStr ''ticker'', JArr [JNum 100, JNum 2]],
                         filterOverride = Some [JStr ''tBTCUSD'']\<rparr>
        (js_default (arr_at (elems \<lparr>elems = [JNum 5, JStr ''ticker'', JArr [JNum 100, JNum 2]],
                                    filterOverride = Some [JStr ''tBTCUSD'']\<rparr>) 2) (JArr []))
   \<and> (\<exists>cs. notifyListenerGroup
              [([], [\<lparr>cb = 0, modelClass = None, filter = None\<rparr>]),
               (''ticker'', [\<lparr>cb = 1, modelClass = None, filter = Some [(0, JStr ''tBTCUSD'')]\<rparr>])]
              \<lparr>elems = [JNum 5, JStr ''ticker'', JArr [JNum 100, JNum 2]],
               filterOverride = Some [JStr ''tBTCUSD'']\<rparr> False JUndefined
            = (notifyCatchAllListeners
                 [([], [\<lparr>cb = 0, modelClass = None, filter = None\<rparr>]),
                  (''ticker'', [\<lparr>cb = 1, modelClass = None, filter = Some [(0, JStr ''tBTCUSD'')]\<rparr>])]
                 \<lparr>elems = [JNum 5, JStr ''ticker'', JArr [JNum 100, JNum 2]],
                  filterOverride = Some [JStr ''tBTCUSD'']\<rparr> @ cs, Returned)
          \<and> (\<exists>arg. Call \<lparr>cb = 1, modelClass = None, filter = Some [(0, JStr ''tBTCUSD'')]\<rparr> arg JUndefined
                      \<in> set cs))
   \<and> Call \<lparr>cb = 0, modelClass = None, filter = None\<rparr>
        (Raw (JArr [JNum 5, JStr ''ticker'', JArr [JNum 100, JNum 2]])) JUndefined
      \<in> set (fst (notifyListenerGroup
              [([], [\<lparr>cb = 0, modelClass = None, filter = None\<rparr>]),
               (''ticker'', [\<lparr>cb = 1, modelClass = None, filter = Some [(0, JStr ''tBTCUSD'')]\<rparr>])]
              \<lparr>elems = [JNum 5, JStr ''ticker'', JArr [JNum 100, JNum 2]],
               filterOverride = Some [JStr ''tBTCUSD'']\<rparr> False JUndefined))"
proof -
  let ?A = "\<lparr>cb = 0, modelClass = None, filter = None\<rparr>"
  let ?L = "\<lparr>cb = 1, modelClass = None, filter = Some [(0, JStr ''tBTCUSD'')]\<rparr>"
  let ?G = "[([], [?A]), (''ticker'', [?L])]"
  let ?P = "\<lparr>elems = [JNum 5, JStr ''ticker'', JArr [JNum 100, JNum 2]],
             filterOverride = Some [JStr ''tBTCUSD'']\<rparr>"
  have d: "js_default (arr_at (elems ?P) 2) (JArr []) = JArr [JNum 100, JNum 2]"
    by (simp add: js_default_def arr_at_def)
  have b: "map_of ?G (js_to_string (arr_at (elems ?P) 1)) = Some [?L]"
    by (simp add: arr_at_def)
  have w: "wellFormedPayload ?P (js_default (arr_at (elems ?P) 2) (JArr []))"
    by (simp add: js_default_def wellFormedPayload_def arr_at_def)
  have m: "(case js_default (arr_at (elems ?P) 2) (JArr []) of
              JArr items \<Rightarrow>
                if js_is_array (arr_at items 0)
                then \<exists>item \<in> set items. js_strict_eq (js_idx (filterByData ?P item) 0) (JStr ''tBTCUSD'')
                else js_strict_eq (js_idx (filterByData ?P (JArr items)) 0) (JStr ''tBTCUSD'')
            | d \<Rightarrow> js_strict_eq (js_idx (filterByData ?P d) 0) (JStr ''tBTCUSD''))"
    by (simp add: js_default_def arr_at_def filterByData_def)
  have c: "map_of ?G [] = Some [?A] \<and> ?A \<in> set [?A]" by simp
  have e: "elems ?P = [JNum 5, JStr ''ticker'', JArr [JNum 100, JNum 2]]" by simp
  note t = filtered_listener_dispatch [of ?G ?P "[?L]" ?L False JUndefined "[?A]" ?A]
  have r1: "\<exists>cs. notifyListenerGroup ?G ?P False JUndefined = (notifyCatchAllListeners ?G ?P @ cs, Returned)
          \<and> (\<exists>arg. Call ?L arg JUndefined \<in> set cs)"
    using t b w m by auto
  have r2: "Call ?A (Raw (JArr (elems ?P))) JUndefined \<in> set (fst (notifyListenerGroup ?G ?P False JUndefined))"
    using t c by blast
  show ?thesis using b w r1 r2 unfolding e by (intro conjI) assumption+
qed

lemma js_isNumber_isEmpty: "js_isNumber v \<Longrightarrow> js_isEmpty v"
  by (cases v) simp_all

lemma payloadPassesFilter_drop_numbers:
  "payloadPassesFilter payload flt
     = payloadPassesFilter payload (List.filter (\<lambda>(k, v). \<not> js_isNumber v) flt)"
proof (induction flt)
  case Nil
  show ?case by simp
next
  case (Cons e flt)
  obtain k v where e: "e = (k, v)" by (cases e)
  show ?case
  proof (cases "js_isNumber v")
    case True
    then have "js_isEmpty v" by (rule js_isNumber_isEmpty)
    with True Cons e show ?thesis by simp
  next
    case False
    with Cons e show ?thesis by (simp split: option.splits)
  qed
qed

lemma payloadPassesFilter_wildcards:
  "\<forall>(k, v) \<in> set flt. js_isNumber v \<or> v = JUndefined \<Longrightarrow> payloadPassesFilter payload flt = Some True"
proof (induction flt)
  case Nil
  show ?case by simp
next
  case (Cons e flt)
  obtain k v where e: "e = (k, v)" by (cases e)
  with Cons.prems have v: "js_isEmpty v" by (auto intro: js_isNumber_isEmpty)
  have "payloadPassesFilter payload flt = Some True"
    using Cons.prems by (intro Cons.IH) simp
  with v e show ?case by simp
qed

lemma anyItemPasses_all:
  "items \<noteq> [] \<Longrightarrow> \<forall>it. payloadPassesFilter (filterByData pk it) flt = Some True
   \<Longrightarrow> anyItemPasses pk flt items = Some True"
proof (induction items)
  case Nil
  then show ?case by simp
next
  case (Cons it items)
  show ?case
  proof (cases "items = []")
    case True
    with Cons.prems show ?thesis by simp
  next
    case False
    with Cons have "anyItemPasses pk flt items = Some True" by simp
    with Cons.prems show ?thesis by simp
  qed
qed

lemma listenerPasses_wildcards:
  assumes "wellFormedPayload pk data" and "filter L = Some flt"
    and "\<forall>(k, v) \<in> set flt. js_isNumber v \<or> v = JUndefined"
  shows "listenerPasses pk data L = Some True"
proof -
  have nn: "\<not> js_nullish data" using assms(1) by (rule wellFormedPayload_not_nullish)
  have all: "payloadPassesFilter p flt = Some True" for p
    using assms(3) by (rule payloadPassesFilter_wildcards)
  show ?thesis
  proof (cases "js_is_array (js_idx data 0)")
    case True
    with assms(1) obtain items where d: "data = JArr items"
      using wellFormedPayload_snapshot by blast
    with True have "items \<noteq> []" by (auto simp: arr_at_def)
    then have "anyItemPasses pk flt items = Some True"
      using all by (intro anyItemPasses_all) simp_all
    with True d assms(2) show ?thesis by (simp add: listenerPasses_def js_get_def)
  next
    case False
    with nn assms(2) all show ?thesis by (simp add: listenerPasses_def js_get_def)
  qed
qed

text \<open>
  Claim C9. lodash \<^verbatim>\<open>isEmpty\<close> is true of every number, so a filter entry with a numeric
  value is skipped like an empty one: dropping the numeric entries of a filter never
  changes the outcome of the check, a filter whose values are all numbers (or absent
  options, \<^verbatim>\<open>undefined\<close>) passes every payload, and a listener registered with such a
  filter is called for every well-formed packet under its event name.
\<close>

theorem numeric_filter_is_wildcard:
  "payloadPassesFilter payload flt
     = payloadPassesFilter payload (List.filter (\<lambda>(k, v). \<not> js_isNumber v) flt)
   \<and> ((\<forall>(k, v) \<in> set flt. js_isNumber v \<or> v = JUndefined) \<longrightarrow>
        payloadPassesFilter payload flt = Some True)
   \<and> (map_of lGroup (js_to_string (arr_at (elems pk) 1)) = Some ls
        \<and> L \<in> set ls \<and> filter L = Some flt
        \<and> (\<forall>(k, v) \<in> set flt. js_isNumber v \<or> v = JUndefined)
        \<and> wellFormedPayload pk (js_default (arr_at (elems pk) 2) (JArr [])) \<longrightarrow>
        (\<exists>cs. notifyListenerGroup lGroup pk transf chanData
                 = (notifyCatchAllListeners lGroup pk @ cs, Returned)
           \<and> (\<exists>arg. Call L arg chanData \<in> set cs)))"
proof (intro conjI impI)
  show "payloadPassesFilter payload flt
     = payloadPassesFilter payload (List.filter (\<lambda>(k, v). \<not> js_isNumber v) flt)"
    by (rule payloadPassesFilter_drop_numbers)
next
  assume "\<forall>(k, v) \<in> set flt. js_isNumber v \<or> v = JUndefined"
  then show "payloadPassesFilter payload flt = Some True"
    by (rule payloadPassesFilter_wildcards)
next
  assume a: "map_of lGroup (js_to_string (arr_at (elems pk) 1)) = Some ls
        \<and> L \<in> set ls \<and> filter L = Some flt
        \<and> (\<forall>(k, v) \<in> set flt. js_isNumber v \<or> v = JUndefined)
        \<and> wellFormedPayload pk (js_default (arr_at (elems pk) 2) (JArr []))"
  let ?data = "js_default (arr_at (elems pk) 2) (JArr [])"
  from a obtain cs where cs:
    "notifyListenerGroup lGroup pk transf chanData = (notifyCatchAllListeners lGroup pk @ cs, Returned)"
    "\<forall>L. (\<exists>arg. Call L arg chanData \<in> set cs) \<longleftrightarrow> (L \<in> set ls \<and> listenerPasses pk ?data L = Some True)"
    using notifyListenerGroup_calls by blast
  have "listenerPasses pk ?data L = Some True"
    using a by (intro listenerPasses_wildcards [of pk ?data L flt]) simp_all
  with cs a show "\<exists>cs. notifyListenerGroup lGroup pk transf chanData
                 = (notifyCatchAllListeners lGroup pk @ cs, Returned)
           \<and> (\<exists>arg. Call L arg chanData \<in> set cs)"
    by blast
qed

text \<open>
  An instance: after \<^verbatim>\<open>onOrderNew({ id: 5, cid: 6, gid: 7 }, cb)\<close> the callback is called
  for a new-order packet whose order id, group id and client id are 999, 1 and 2.
\<close>

theorem numeric_filter_is_wildcard_witness:
  "listeners (onOrderNew JUndefined (JNum 5) (JNum 6) (JNum 7) JUndefined 1 (newWSv2 defaultOpts))
     = [(''null'', [(''on'', [\<lparr>cb = 1, modelClass = Some ''Order'',
          filter = Some [(0, JNum 5), (1, JNum 7), (2, JNum 6), (3, JUndefined)]\<rparr>])])]
   \<and> wellFormedPayload \<lparr>elems = [JNum 0, JStr ''on'', JArr [JNum 999, JNum 1, JNum 2, JStr ''tBTCUSD'']],
                         filterOverride = None\<rparr>
        (js_default (arr_at (elems \<lparr>elems = [JNum 0, JStr ''on'', JArr [JNum 999, JNum 1, JNum 2, JStr ''tBTCUSD'']],
                                    filterOverride = None\<rparr>) 2) (JArr []))
   \<and> payloadPassesFilter (JArr [JNum 999, JNum 1, JNum 2, JStr ''tBTCUSD''])
        [(0, JNum 5), (1, JNum 7), (2, JNum 6), (3, JUndefined)] = Some True
   \<and> (\<exists>cs. notifyListenerGroup
              [(''on'', [\<lparr>cb = 1, modelClass = Some ''Order'',
                  filter = Some [(0, JNum 5), (1, JNum 7), (2, JNum 6), (3, JUndefined)]\<rparr>])]
              \<lparr>elems = [JNum 0, JStr ''on'', JArr [JNum 999, JNum 1, JNum 2, JStr ''tBTCUSD'']],
               filterOverride = None\<rparr> False (JObj [(''channel'', JStr ''auth'')])
            = (notifyCatchAllListeners
                 [(''on'', [\<lparr>cb = 1, modelClass = Some ''Order'',
                     filter = Some [(0, JNum 5), (1, JNum 7), (2, JNum 6), (3, JUndefined)]\<rparr>])]
                 \<lparr>elems = [JNum 0, JStr ''on'', JArr [JNum 999, JNum 1, JNum 2, JStr ''tBTCUSD'']],
                  filterOverride = None\<rparr> @ cs, Returned)
          \<and> (\<exists>arg. Call \<lparr>cb = 1, modelClass = Some ''Order'',
                  filter = Some [(0, JNum 5), (1, JNum 7), (2, JNum 6), (3, JUndefined)]\<rparr>
                  arg (JObj [(''channel'', JStr ''auth'')]) \<in> set cs))"
proof -
  let ?F = "[(0, JNum 5), (1, JNum 7), (2, JNum 6), (3, JUndefined)]"
  let ?L = "\<lparr>cb = 1, modelClass = Some ''Order'', filter = Some ?F\<rparr>"
  let ?G = "[(''on'', [?L])]"
  let ?P = "\<lparr>elems = [JNum 0, JStr ''on'', JArr [JNum 999, JNum 1, JNum 2, JStr ''tBTCUSD'']],
             filterOverride = None\<rparr>"
  let ?C = "JObj [(''channel'', JStr ''auth'')]"
  have reg: "listeners (onOrderNew JUndefined (JNum 5) (JNum 6) (JNum 7) JUndefined 1 (newWSv2 defaultOpts))
     = [(''null'', ?G)]"
    by (simp add: onOrderNew_def registerListener_def newWSv2_def Let_def)
  have d: "js_default (arr_at (elems ?P) 2) (JArr []) = JArr [JNum 999, JNum 1, JNum 2, JStr ''tBTCUSD'']"
    by (simp add: js_default_def arr_at_def)
  have b: "map_of ?G (js_to_string (arr_at (elems ?P) 1)) = Some [?L]"
    by (simp add: arr_at_def)
  have w: "wellFormedPayload ?P (js_default (arr_at (elems ?P) 2) (JArr []))"
    by (simp add: js_default_def wellFormedPayload_def arr_at_def)
  have n: "\<forall>(k, v) \<in> set ?F. js_isNumber v \<or> v = JUndefined" by simp
  have f: "filter ?L = Some ?F" "?L \<in> set [?L]" by simp_all
  note t = numeric_filter_is_wildcard
    [of "JArr [JNum 999, JNum 1, JNum 2, JStr ''tBTCUSD'']" ?F ?G ?P "[?L]" ?L False ?C]
  have r1: "payloadPassesFilter (JArr [JNum 999, JNum 1, JNum 2, JStr ''tBTCUSD'']) ?F = Some True"
    using t n by blast
  have r2: "\<exists>cs. notifyListenerGroup ?G ?P False ?C = (notifyCatchAllListeners ?G ?P @ cs, Returned)
          \<and> (\<exists>arg. Call ?L arg ?C \<in> set cs)"
    using t b f n w by blast
  show ?thesis using reg w r1 r2 by (intro conjI) assumption+
qed

section \<open>Properties of the checksum handler\<close>

lemma propagateMessageToListeners_frame:
  "\<exists>cs c. propagateMessageToListeners pk chan transf s = (c, s\<lparr>calls := calls s @ cs\<rparr>)"
proof -
  obtain cs c where "propagateLoop (listeners s) pk transf chan = (cs, c)"
    by (cases "propagateLoop (listeners s) pk transf chan")
  then have "propagateMessageToListeners pk chan transf s = (c, s\<lparr>calls := calls s @ cs\<rparr>)"
    by (simp add: propagateMessageToListeners_def)
  then show ?thesis by blast
qed

lemma first_char_is_t:
  "js_get (JStr symbol) 0 = Some c0 \<Longrightarrow> js_strict_eq c0 (JStr ''t'') \<longleftrightarrow> (symbol \<noteq> [] \<and> hd symbol = CHR ''t'')"
  by (cases symbol) (auto simp: js_get_def)

lemma js_get_string: "\<exists>c0. js_get (JStr symbol) 0 = Some c0"
  by (simp add: js_get_def)

text \<open>
  Claim C3. With order-book management on and a channel whose symbol is the string
  \<open>symbol\<close>: when \<open>symbol\<close> does not start with \<^verbatim>\<open>t\<close> (a funding book), the handler's result does
  not depend on the checksum function, and all it emits is the raw \<^verbatim>\<open>cs\<close> event and, if
  the dispatch returns, the decoded one, so no error is raised and only the call log
  grows. When \<open>symbol\<close> starts with \<^verbatim>\<open>t\<close>, a lossless book is stored for it and the locally
  computed checksum is not strictly equal to the server's value, the handler emits the
  raw \<^verbatim>\<open>cs\<close> event and exactly one error, calls no listener and leaves every other part
  of the state, both stored books included, as it was.
\<close>

theorem ob_checksum_handling:
  assumes "manageOrderBooks s" and "js_prop chanData ''symbol'' = JStr symbol"
  shows "(symbol = [] \<or> hd symbol \<noteq> CHR ''t'' \<longrightarrow>
            handleOBChecksumMessage checksumArr msg chanData s
              = handleOBChecksumMessage checksumArr' msg chanData s
          \<and> (\<exists>cs c. handleOBChecksumMessage checksumArr msg chanData s =
                (c, s\<lparr>emitted := emitted s @ Emit ''cs'' [JArr msg] #
                                   (if c = Returned then [Emit ''cs'' [JStr symbol, arr_at msg 2]] else []),
                      calls := calls s @ cs\<rparr>)))
       \<and> (symbol \<noteq> [] \<and> hd symbol = CHR ''t'' \<and> losslessOrderBooks s symbol = Some ob \<and> js_truthy ob
            \<and> \<not> js_strict_eq (checksumArr ob (js_strict_eq (js_prop chanData ''prec'') (JStr ''R0'')))
                               (arr_at msg 2) \<longrightarrow>
            handleOBChecksumMessage checksumArr msg chanData s =
              (Returned,
               s\<lparr>emitted := emitted s @
                    [Emit ''cs'' [JArr msg],
                     EmitError (ChecksumMismatch
                       (checksumArr ob (js_strict_eq (js_prop chanData ''prec'') (JStr ''R0'')))
                       (arr_at msg 2))]\<rparr>)
          \<and> orderBooks (snd (handleOBChecksumMessage checksumArr msg chanData s)) = orderBooks s
          \<and> losslessOrderBooks (snd (handleOBChecksumMessage checksumArr msg chanData s))
               = losslessOrderBooks s)"
proof (intro conjI impI)
  assume f: "symbol = [] \<or> hd symbol \<noteq> CHR ''t''"
  obtain c0 where c0: "js_get (JStr symbol) 0 = Some c0" using js_get_string by blast
  with f have nt: "\<not> js_strict_eq c0 (JStr ''t'')" using first_char_is_t by blast
  let ?s1 = "s\<lparr>emitted := emitted s @ [Emit ''cs'' [JArr msg]]\<rparr>"
  let ?im = "\<lparr>elems = [js_prop chanData ''chanId'', JStr ''ob_checksum'', arr_at msg 2],
              filterOverride = Some [JStr symbol, js_prop chanData ''prec'', js_prop chanData ''len'']\<rparr>"
  have h: "handleOBChecksumMessage ca msg chanData s =
             (case propagateMessageToListeners ?im (JBool False) (transform ?s1) ?s1 of
                (c, s2) \<Rightarrow> (case c of
                    ThrewTypeError \<Rightarrow> (ThrewTypeError, s2)
                  | Returned \<Rightarrow> (Returned, s2\<lparr>emitted := emitted s2 @ [Emit ''cs'' [JStr symbol, arr_at msg 2]]\<rparr>)))"
    for ca
    using assms c0 nt by (simp add: handleOBChecksumMessage_def Let_def)
  show "handleOBChecksumMessage checksumArr msg chanData s
              = handleOBChecksumMessage checksumArr' msg chanData s"
    by (simp only: h)
  obtain cs c where p: "propagateMessageToListeners ?im (JBool False) (transform ?s1) ?s1
                          = (c, ?s1\<lparr>calls := calls ?s1 @ cs\<rparr>)"
    using propagateMessageToListeners_frame by blast
  have "handleOBChecksumMessage checksumArr msg chanData s =
                (c, s\<lparr>emitted := emitted s @ Emit ''cs'' [JArr msg] #
                                   (if c = Returned then [Emit ''cs'' [JStr symbol, arr_at msg 2]] else []),
                      calls := calls s @ cs\<rparr>)"
    by (simp only: h p) (cases c; simp)
  then show "\<exists>cs c. handleOBChecksumMessage checksumArr msg chanData s =
                (c, s\<lparr>emitted := emitted s @ Emit ''cs'' [JArr msg] #
                                   (if c = Returned then [Emit ''cs'' [JStr symbol, arr_at msg 2]] else []),
                      calls := calls s @ cs\<rparr>)"
    by blast
next
  assume t: "symbol \<noteq> [] \<and> hd symbol = CHR ''t'' \<and> losslessOrderBooks s symbol = Some ob \<and> js_truthy ob
            \<and> \<not> js_strict_eq (checksumArr ob (js_strict_eq (js_prop chanData ''prec'') (JStr ''R0'')))
                               (arr_at msg 2)"
  obtain c0 where c0: "js_get (JStr symbol) 0 = Some c0" using js_get_string by blast
  with t have it: "js_strict_eq c0 (JStr ''t'')" using first_char_is_t by blast
  show r: "handleOBChecksumMessage checksumArr msg chanData s =
              (Returned,
               s\<lparr>emitted := emitted s @
                    [Emit ''cs'' [JArr msg],
                     EmitError (ChecksumMismatch
                       (checksumArr ob (js_strict_eq (js_prop chanData ''prec'') (JStr ''R0'')))
                       (arr_at msg 2))]\<rparr>)"
    using assms c0 it t
    by (simp add: handleOBChecksumMessage_def verifyManagedOBChecksum_def Let_def)
  show "orderBooks (snd (handleOBChecksumMessage checksumArr msg chanData s)) = orderBooks s"
    by (simp only: r snd_conv) simp
  show "losslessOrderBooks (snd (handleOBChecksumMessage checksumArr msg chanData s))
               = losslessOrderBooks s"
    by (simp only: r snd_conv) simp
qed

theorem ob_checksum_handling_witness:
  "manageOrderBooks (newWSv2 (defaultOpts\<lparr>optManageOrderBooks := True\<rparr>)
      \<lparr>losslessOrderBooks := [''tBTCUSD'' \<mapsto> JArr [JArr [JStr ''100'', JStr ''1'', JStr ''2'']]]\<rparr>)
   \<and> js_prop (JObj [(''channel'', JStr ''book''), (''chanId'', JNum 17), (''symbol'', JStr ''tBTCUSD''),
                    (''prec'', JStr ''P0''), (''len'', JStr ''25'')]) ''symbol'' = JStr ''tBTCUSD''
   \<and> handleOBChecksumMessage (\<lambda>ob raw. JNum 999) [JNum 17, JStr ''cs'', JNum 12345]
        (JObj [(''channel'', JStr ''book''), (''chanId'', JNum 17), (''symbol'', JStr ''tBTCUSD''),
               (''prec'', JStr ''P0''), (''len'', JStr ''25'')])
        (newWSv2 (defaultOpts\<lparr>optManageOrderBooks := True\<rparr>)
           \<lparr>losslessOrderBooks := [''tBTCUSD'' \<mapsto> JArr [JArr [JStr ''100'', JStr ''1'', JStr ''2'']]]\<rparr>)
      = (Returned,
         newWSv2 (defaultOpts\<lparr>optManageOrderBooks := True\<rparr>)
           \<lparr>losslessOrderBooks := [''tBTCUSD'' \<mapsto> JArr [JArr [JStr ''100'', JStr ''1'', JStr ''2'']]],
            emitted := [Emit ''cs'' [JArr [JNum 17, JStr ''cs'', JNum 12345]],
                        EmitError (ChecksumMismatch (JNum 999) (JNum 12345))]\<rparr>)
   \<and> js_prop (JObj [(''channel'', JStr ''book''), (''chanId'', JNum 18), (''symbol'', JStr ''fUSD''),
                    (''prec'', JStr ''P0''), (''len'', JStr ''25'')]) ''symbol'' = JStr ''fUSD''
   \<and> handleOBChecksumMessage (\<lambda>ob raw. JNum 999) [JNum 18, JStr ''cs'', JNum 12345]
        (JObj [(''channel'', JStr ''book''), (''chanId'', JNum 18), (''symbol'', JStr ''fUSD''),
               (''prec'', JStr ''P0''), (''len'', JStr ''25'')])
        (newWSv2 (defaultOpts\<lparr>optManageOrderBooks := True\<rparr>)
           \<lparr>losslessOrderBooks := [''tBTCUSD'' \<mapsto> JArr [JArr [JStr ''100'', JStr ''1'', JStr ''2'']]]\<rparr>)
      = handleOBChecksumMessage (\<lambda>ob raw. JNum 12345) [JNum 18, JStr ''cs'', JNum 12345]
        (JObj [(''channel'', JStr ''book''), (''chanId'', JNum 18), (''symbol'', JStr ''fUSD''),
               (''prec'', JStr ''P0''), (''len'', JStr ''25'')])
        (newWSv2 (defaultOpts\<lparr>optManageOrderBooks := True\<rparr>)
           \<lparr>losslessOrderBooks := [''tBTCUSD'' \<mapsto> JArr [JArr [JStr ''100'', JStr ''1'', JStr ''2'']]]\<rparr>)"
proof -
  let ?s = "newWSv2 (defaultOpts\<lparr>optManageOrderBooks := True\<rparr>)
      \<lparr>losslessOrderBooks := [''tBTCUSD'' \<mapsto> JArr [JArr [JStr ''100'', JStr ''1'', JStr ''2'']]]\<rparr>"
  let ?ct = "JObj [(''channel'', JStr ''book''), (''chanId'', JNum 17), (''symbol'', JStr ''tBTCUSD''),
                    (''prec'', JStr ''P0''), (''len'', JStr ''25'')]"
  let ?cf = "JObj [(''channel'', JStr ''book''), (''chanId'', JNum 18), (''symbol'', JStr ''fUSD''),
                    (''prec'', JStr ''P0''), (''len'', JStr ''25'')]"
  let ?ob = "JArr [JArr [JStr ''100'', JStr ''1'', JStr ''2'']]"
  have m: "manageOrderBooks ?s" by (simp add: newWSv2_def defaultOpts_def)
  have st: "js_prop ?ct ''symbol'' = JStr ''tBTCUSD''" by simp
  have sf: "js_prop ?cf ''symbol'' = JStr ''fUSD''" by simp
  have e: "emitted ?s = []" by (simp add: newWSv2_def)
  have h: "''tBTCUSD'' \<noteq> [] \<and> hd ''tBTCUSD'' = CHR ''t'' \<and> losslessOrderBooks ?s ''tBTCUSD'' = Some ?ob
            \<and> js_truthy ?ob
            \<and> \<not> js_strict_eq ((\<lambda>ob raw. JNum 999) ?ob (js_strict_eq (js_prop ?ct ''prec'') (JStr ''R0'')))
                               (arr_at [JNum 17, JStr ''cs'', JNum 12345] 2)"
    by (simp add: arr_at_def)
  have a: "arr_at [JNum 17, JStr ''cs'', JNum 12345] 2 = JNum 12345" by (simp add: arr_at_def)
  have r1: "handleOBChecksumMessage (\<lambda>ob raw. JNum 999) [JNum 17, JStr ''cs'', JNum 12345] ?ct ?s
      = (Returned, ?s\<lparr>emitted := [Emit ''cs'' [JArr [JNum 17, JStr ''cs'', JNum 12345]],
                        EmitError (ChecksumMismatch (JNum 999) (JNum 12345))]\<rparr>)"
    using ob_checksum_handling [OF m st, of "\<lambda>ob raw. JNum 999" "[JNum 17, JStr ''cs'', JNum 12345]"
        "\<lambda>ob raw. JNum 999" ?ob] h
    by (simp only: a e append_Nil) blast
  have f: "''fUSD'' = [] \<or> hd ''fUSD'' \<noteq> CHR ''t''" by simp
  have r2: "handleOBChecksumMessage (\<lambda>ob raw. JNum 999) [JNum 18, JStr ''cs'', JNum 12345] ?cf ?s
      = handleOBChecksumMessage (\<lambda>ob raw. JNum 12345) [JNum 18, JStr ''cs'', JNum 12345] ?cf ?s"
    using ob_checksum_handling [OF m sf, of "\<lambda>ob raw. JNum 999" "[JNum 18, JStr ''cs'', JNum 12345]"
        "\<lambda>ob raw. JNum 12345" ?ob] f
    by blast
  show ?thesis using m st sf r1 r2 by (intro conjI) assumption+
qed

end
